theory Spec2Isabelle
  imports Complex_Main "HOL-Library.Char_ord" "HOL-Library.Sublist"
begin

section \<open>Strings and the regular expression of the source analyzer\<close>

text \<open>
  A JavaScript string is modelled as a \<open>string\<close>: a list of code units, each below 256.
  The character classes below are the ECMAScript ones cut down to that range:
  \<open>\w\<close> is \<open>[A-Za-z0-9_]\<close>, \<open>\s\<close> is TAB, LF, VT, FF, CR, SPACE and NBSP, and
  \<open>.\<close> (no \<open>s\<close> flag) is every code unit but LF and CR.
\<close>

definition is_word :: "char \<Rightarrow> bool" where
  "is_word c \<longleftrightarrow>
     (CHR ''a'' \<le> c \<and> c \<le> CHR ''z'') \<or> (CHR ''A'' \<le> c \<and> c \<le> CHR ''Z'') \<or>
     (CHR ''0'' \<le> c \<and> c \<le> CHR ''9'') \<or> c = CHR ''_''"

definition is_space :: "char \<Rightarrow> bool" where
  "is_space c \<longleftrightarrow>
     c \<in> set [CHR 0x09, CHR 0x0A, CHR 0x0B, CHR 0x0C, CHR 0x0D, CHR 0x20, CHR 0xA0]"

definition is_dot :: "char \<Rightarrow> bool" where
  "is_dot c \<longleftrightarrow> c \<noteq> CHR 0x0A \<and> c \<noteq> CHR 0x0D"

definition is_char :: "char \<Rightarrow> char \<Rightarrow> bool" where
  "is_char d c \<longleftrightarrow> c = d"

text \<open>
  The regular expression of \<open>extractFunctions\<close> is a sequence of single-character atoms,
  each under one quantifier: exactly one, \<open>+\<close>, \<open>*\<close> (both greedy) or \<open>*?\<close> (lazy).
  The matcher is the backtracking one of ECMAScript, written with a continuation \<open>k\<close>
  that matches the rest of the pattern: a greedy quantifier tries the longest run first
  and gives characters back one at a time, a lazy one tries the continuation first and
  takes one more character only when that fails. The result is the number of code units
  of the first match found in that order, or \<open>None\<close>.
\<close>

datatype quant = One | Plus | Star | LazyStar

type_synonym atom = "(char \<Rightarrow> bool) \<times> quant"

fun greedy_star :: "(char \<Rightarrow> bool) \<Rightarrow> (string \<Rightarrow> nat option) \<Rightarrow> string \<Rightarrow> nat option" where
  "greedy_star p k [] = k []"
| "greedy_star p k (c # cs) =
     (if p c then
        (case greedy_star p k cs of
           Some n \<Rightarrow> Some (Suc n)
         | None \<Rightarrow> k (c # cs))
      else k (c # cs))"

fun lazy_star :: "(char \<Rightarrow> bool) \<Rightarrow> (string \<Rightarrow> nat option) \<Rightarrow> string \<Rightarrow> nat option" where
  "lazy_star p k [] = k []"
| "lazy_star p k (c # cs) =
     (case k (c # cs) of
        Some n \<Rightarrow> Some n
      | None \<Rightarrow> (if p c then map_option Suc (lazy_star p k cs) else None))"

fun one_char :: "(char \<Rightarrow> bool) \<Rightarrow> (string \<Rightarrow> nat option) \<Rightarrow> string \<Rightarrow> nat option" where
  "one_char p k [] = None"
| "one_char p k (c # cs) = (if p c then map_option Suc (k cs) else None)"

fun match_atom :: "atom \<Rightarrow> (string \<Rightarrow> nat option) \<Rightarrow> string \<Rightarrow> nat option" where
  "match_atom (p, One) k s = one_char p k s"
| "match_atom (p, Plus) k s = one_char p (greedy_star p k) s"
| "match_atom (p, Star) k s = greedy_star p k s"
| "match_atom (p, LazyStar) k s = lazy_star p k s"

primrec match_seq :: "atom list \<Rightarrow> string \<Rightarrow> nat option" where
  "match_seq [] = (\<lambda>s. Some 0)"
| "match_seq (a # as) = match_atom a (match_seq as)"

text \<open>
  \<open>String.prototype.match\<close> with a global regular expression: \<open>lastIndex\<close> starts at 0;
  the matcher is tried at \<open>lastIndex\<close>, then one further on each failure; a match is
  collected and \<open>lastIndex\<close> moves to its end (one more after an empty match); the search
  stops once \<open>lastIndex\<close> passes the end of the string. In \<open>scan\<close> the second argument
  counts the code units still inside the last match. The result is \<open>null\<close> (here
  \<open>None\<close>) when nothing matched.
\<close>

fun scan :: "(string \<Rightarrow> nat option) \<Rightarrow> nat \<Rightarrow> string \<Rightarrow> string list" where
  "scan m (Suc j) (c # cs) = scan m j cs"
| "scan m 0 (c # cs) =
     (case m (c # cs) of
        None \<Rightarrow> scan m 0 cs
      | Some n \<Rightarrow> take n (c # cs) # scan m (n - 1) cs)"
| "scan m j [] =
     (if j = 0 then (case m [] of None \<Rightarrow> [] | Some n \<Rightarrow> [Nil]) else [])"

definition str_match :: "atom list \<Rightarrow> string \<Rightarrow> string list option" where
  "str_match re s = (case scan (match_seq re) 0 s of [] \<Rightarrow> None | ms \<Rightarrow> Some ms)"

text \<open>\<open>String.prototype.trim\<close>: white space and line terminators off both ends.\<close>

definition trim :: "string \<Rightarrow> string" where
  "trim s = rev (dropWhile is_space (rev (dropWhile is_space s)))"

text \<open>
  \<open>String.prototype.endsWith\<close>, and \<open>toLowerCase\<close> on code units below 256: the
  upper-case letters are \<open>A\<close> to \<open>Z\<close> and 0xC0 to 0xDE without 0xD7; the lower-case
  letter is 32 further on, which sets bit 5 of the code unit (clear in both ranges).
\<close>

definition endsWith :: "string \<Rightarrow> string \<Rightarrow> bool" where
  "endsWith s t \<longleftrightarrow> length t \<le> length s \<and> drop (length s - length t) s = t"

definition lower_char :: "char \<Rightarrow> char" where
  "lower_char c =
     (if (CHR ''A'' \<le> c \<and> c \<le> CHR ''Z'') \<or> (CHR 0xC0 \<le> c \<and> c \<le> CHR 0xDE \<and> c \<noteq> CHR 0xD7)
      then (case c of Char b0 b1 b2 b3 b4 b5 b6 b7 \<Rightarrow> Char b0 b1 b2 b3 b4 True b6 b7)
      else c)"

definition toLowerCase :: "string \<Rightarrow> string" where
  "toLowerCase s = map lower_char s"

section \<open>The source analyzer: parseCppFiles and extractFunctions\<close>

text \<open>
  \<^verbatim>\<open>const functionRegex = /(\w+\s+\**\w+\s*\(.*?\)\s*{)/g;\<close>
  The group around the whole pattern does not change what \<open>match\<close> returns under the
  \<open>g\<close> flag.
\<close>

definition functionRegex :: "atom list" where
  "functionRegex =
     [(is_word, Plus), (is_space, Plus), (is_char CHR ''*'', Star), (is_word, Plus),
      (is_space, Star), (is_char CHR ''('', One), (is_dot, LazyStar), (is_char CHR '')'', One),
      (is_space, Star), (is_char CHR ''{'', One)]"

definition extractFunctions :: "string \<Rightarrow> string list" where
  "extractFunctions content =
     (case str_match functionRegex content of
        Some matches \<Rightarrow> map trim matches
      | None \<Rightarrow> [])"

text \<open>
  A file as \<open>parseCppFiles\<close> reads it: a name and a content (the source's comment assumes
  the content is accessible, so it is a string); whatever else the object carries is the
  extension of the record. The \<open>forEach\<close> loop pushes onto \<open>parsedData\<close>, which starts
  empty.
\<close>

record named =
  name :: string

record file_obj = named +
  content :: string

record parsed =
  fileName :: string
  functions_list :: "string list"

fun parseLoop :: "parsed list \<Rightarrow> 'a file_obj_scheme list \<Rightarrow> parsed list" where
  "parseLoop parsedData [] = parsedData"
| "parseLoop parsedData (f # fs) =
     parseLoop
       (if endsWith (name f) ''.cpp''
        then parsedData @ [\<lparr>fileName = name f, functions_list = extractFunctions (content f)\<rparr>]
        else parsedData)
       fs"

definition parseCppFiles :: "'a file_obj_scheme list \<Rightarrow> parsed list" where
  "parseCppFiles files = parseLoop [] files"

section \<open>The file uploader: addFiles\<close>

text \<open>
  The state of the component that \<open>addFiles\<close> reads and writes: the selected files, the
  upload mode, and the messages handed to the \<open>onError\<close> callback, oldest first. A
  browser \<open>File\<close> is read through its name only.
\<close>

datatype UploadMode = Files | Github | Zip

record 'a uploader =
  selectedFiles :: "'a named_scheme list"
  uploadMode :: UploadMode
  errors :: "string list"

definition cppFileExtensions :: "string list" where
  "cppFileExtensions = [''.cpp'', ''.hpp'', ''.h'', ''.cc'', ''.cxx'', ''.c++'']"

definition zipFileExtensions :: "string list" where
  "zipFileExtensions = [''.zip'', ''.tar.gz'', ''.tgz'']"

definition has_extension :: "string list \<Rightarrow> 'a named_scheme \<Rightarrow> bool" where
  "has_extension exts f \<longleftrightarrow> list_ex (\<lambda>ext. endsWith (toLowerCase (name f)) ext) exts"

definition onError :: "string \<Rightarrow> 'a uploader \<Rightarrow> 'a uploader" where
  "onError msg st = st\<lparr>errors := errors st @ [msg]\<rparr>"

definition addFiles :: "'a named_scheme list \<Rightarrow> 'a uploader \<Rightarrow> 'a uploader" where
  "addFiles files st =
     (if uploadMode st = Zip then
        (case find (has_extension zipFileExtensions) files of
           Some zipFile \<Rightarrow> st\<lparr>selectedFiles := [zipFile]\<rparr>
         | None \<Rightarrow> onError ''Please select a valid archive file (.zip, .tar.gz, .tgz)'' st)
      else
        (let validFiles = filter (has_extension cppFileExtensions) files in
         if length validFiles = 0
         then onError ''Please select C++ files (.cpp, .hpp, .h, .cc, .cxx, .c++)'' st
         else st\<lparr>selectedFiles := selectedFiles st @ validFiles\<rparr>))"

section \<open>The language of a pattern\<close>

text \<open>
  What a sequence of atoms denotes, independently of the matcher: a string belongs to the
  pattern when it splits into one run per atom, each run made of characters of the atom's
  class and as long as the quantifier allows.
\<close>

definition count_ok :: "quant \<Rightarrow> nat \<Rightarrow> bool" where
  "count_ok q i = (case q of One \<Rightarrow> i = 1 | Plus \<Rightarrow> 1 \<le> i | Star \<Rightarrow> True | LazyStar \<Rightarrow> True)"

fun in_lang :: "atom list \<Rightarrow> string \<Rightarrow> bool" where
  "in_lang [] s = (s = [])"
| "in_lang ((p, q) # as) s =
     list_ex (\<lambda>i. count_ok q i \<and> list_all p (take i s) \<and> in_lang as (drop i s))
       [0..<Suc (length s)]"

section \<open>The coverage estimator\<close>

text \<open>
  The orchestration engine (coverage estimator, build validator, orchestrator) is code of
  the backend. The sources hold none of it: only the frontend's declarations of the types
  it exchanges (\<open>GeneratedTest\<close>, \<open>CoverageReport\<close>, \<open>BuildLog\<close>) and its callers.
\<close>

text \<open>
  Modelled from the spec: the kinds of an ExtractedSymbol (section 3), a type of the
  missing backend.
\<close>

datatype SymbolKind = Function | Method | Class

text \<open>
  Modelled from the spec: an ExtractedSymbol (section 3, missing backend code) has a kind,
  a qualified name, a parameter signature text, an optional owning class and a source
  span (file, start and end line).
\<close>

record ExtractedSymbol =
  kind :: SymbolKind
  qualified_name :: string
  signature :: string
  owning_class :: "string option"
  span_file :: string
  start_line :: nat
  end_line :: nat

text \<open>
  Modelled from the spec: a GeneratedTest (section 3, missing backend code; the fields are
  those of the frontend's declaration) has a filename, a content, the source file it
  targets, the list of symbol names it claims to exercise and an estimated coverage.
\<close>

record GeneratedTest =
  filename :: string
  test_content :: string
  source_file :: string
  functions_tested :: "string list"
  coverage_estimate :: rat

text \<open>
  Modelled from the spec: a CoverageReport (section 3, missing backend code) with its
  overall and per-file coverage. The per-function and line figures are left out: the
  spec does not say how they are computed.
\<close>

record CoverageReport =
  overall_coverage :: rat
  file_coverage :: "(string \<times> rat) list"

text \<open>
  Modelled from the spec: the Coverage Estimator's rule for one symbol (section 4.5), which
  is backend code missing from the sources. A symbol counts as covered for a file if at
  least one GeneratedTest targeting that file lists the symbol's qualified name among its
  exercised symbols.
\<close>

definition symbol_covered :: "string \<Rightarrow> GeneratedTest list \<Rightarrow> ExtractedSymbol \<Rightarrow> bool" where
  "symbol_covered F tests s \<longleftrightarrow>
     list_ex (\<lambda>t. source_file t = F \<and> qualified_name s \<in> set (functions_tested t)) tests"

text \<open>
  Modelled from the spec: the coverage numerator of a file (section 4.5, missing backend
  code): the number of the file's extracted symbols that count as covered.
\<close>

definition covered_symbols :: "string \<Rightarrow> ExtractedSymbol list \<Rightarrow> GeneratedTest list \<Rightarrow> nat" where
  "covered_symbols F syms tests = length (filter (symbol_covered F tests) syms)"

text \<open>
  Modelled from the spec: per-file coverage (section 4.5, missing backend code) is covered
  over total symbols in that file, and 0 if the file has zero extracted symbols.
\<close>

definition estimate_file :: "string \<Rightarrow> ExtractedSymbol list \<Rightarrow> GeneratedTest list \<Rightarrow> rat" where
  "estimate_file F syms tests =
     (if length syms = 0 then 0
      else of_nat (covered_symbols F syms tests) / of_nat (length syms))"

text \<open>
  Modelled from the spec: overall coverage (section 4.5, missing backend code) is covered
  symbols over total symbols across all files with at least one symbol. The spec gives no
  value for a project none of whose files has a symbol; the model returns 0 there, as the
  per-file rule does.
\<close>

definition estimate_overall :: "(string \<times> ExtractedSymbol list) list \<Rightarrow> GeneratedTest list \<Rightarrow> rat" where
  "estimate_overall files tests =
     (let counted = filter (\<lambda>(F, syms). syms \<noteq> []) files;
          covered = sum_list (map (\<lambda>(F, syms). covered_symbols F syms tests) counted);
          total = sum_list (map (\<lambda>(F, syms). length syms) counted)
      in if total = 0 then 0 else of_nat covered / of_nat total)"

text \<open>
  Modelled from the spec: the contract \<open>estimate(extractedSymbols, generatedTests)\<close> of
  section 4.5 (missing backend code); the report is computed wholesale from its inputs.
\<close>

definition estimate :: "(string \<times> ExtractedSymbol list) list \<Rightarrow> GeneratedTest list \<Rightarrow> CoverageReport" where
  "estimate files tests =
     \<lparr>overall_coverage = estimate_overall files tests,
      file_coverage = map (\<lambda>(F, syms). (F, estimate_file F syms tests)) files\<rparr>"

section \<open>The build validator\<close>

text \<open>
  Modelled from the spec: the severities of a BuildLogEntry (section 3), a type of the
  missing backend.
\<close>

datatype Severity = Info | Warning | Error

text \<open>
  Modelled from the spec: a BuildLogEntry (section 3) has a severity, a message and an
  optional file and line; the Build Validator that produces it is backend code missing
  from the sources.
\<close>

record BuildLogEntry =
  severity :: Severity
  message :: string
  log_file :: "string option"
  log_line :: "nat option"

text \<open>
  Modelled from the spec: the fields of the shape \<open>file:line: severity: message\<close> of
  section 4.4 (missing backend code) are separated by colons; \<open>split_colon\<close> cuts a
  text at its first colon.
\<close>

definition split_colon :: "string \<Rightarrow> (string \<times> string) option" where
  "split_colon s =
     (if CHR '':'' \<in> set s
      then Some (takeWhile (\<lambda>c. c \<noteq> CHR '':'') s, tl (dropWhile (\<lambda>c. c \<noteq> CHR '':'') s))
      else None)"

text \<open>
  Modelled from the spec: the \<open>line\<close> field of the shape (section 4.4, missing backend
  code) is a number, as in Scenario B: a non-empty run of decimal digits.
\<close>

definition is_digit :: "char \<Rightarrow> bool" where
  "is_digit c \<longleftrightarrow> CHR ''0'' \<le> c \<and> c \<le> CHR ''9''"

text \<open>
  Modelled from the spec: the value of the \<open>line\<close> field (section 4.4, missing backend
  code), read in base ten: \<open>12\<close> in Scenario B.
\<close>

definition decimal :: "string \<Rightarrow> nat" where
  "decimal ds = foldl (\<lambda>n c. 10 * n + (of_char c - 48)) 0 ds"

text \<open>
  Modelled from the spec: the \<open>line\<close> field of the shape (section 4.4, missing backend
  code); \<open>None\<close> when the field is not a number.
\<close>

definition parse_line_number :: "string \<Rightarrow> nat option" where
  "parse_line_number ds = (if ds \<noteq> [] \<and> list_all is_digit ds then Some (decimal ds) else None)"

text \<open>
  Modelled from the spec: the \<open>severity\<close> field of the shape (section 4.4, missing
  backend code) names one of the three severities of the data model, in lower case as in
  Scenario B.
\<close>

definition parse_severity :: "string \<Rightarrow> Severity option" where
  "parse_severity w =
     (if w = ''error'' then Some Error
      else if w = ''warning'' then Some Warning
      else if w = ''info'' then Some Info
      else None)"

text \<open>
  Modelled from the spec: a diagnostic line matching the \<open>file:line: severity: message\<close>
  shape maps directly to an entry (section 4.4, missing backend code). \<open>None\<close> is a line
  that does not have the shape.
\<close>

definition parse_diagnostic :: "string \<Rightarrow> BuildLogEntry option" where
  "parse_diagnostic l =
     (case split_colon l of
        None \<Rightarrow> None
      | Some (f, r1) \<Rightarrow>
          (case split_colon r1 of
             None \<Rightarrow> None
           | Some (ds, r2) \<Rightarrow>
               (case split_colon r2 of
                  None \<Rightarrow> None
                | Some (sv, msg) \<Rightarrow>
                    (case (parse_line_number ds, sv, msg) of
                       (Some n, sp # w, sp' # m) \<Rightarrow>
                         (case parse_severity w of
                            Some sev \<Rightarrow>
                              if f \<noteq> [] \<and> sp = CHR '' '' \<and> sp' = CHR '' ''
                              then Some \<lparr>severity = sev, message = m,
                                         log_file = Some f, log_line = Some n\<rparr>
                              else None
                          | None \<Rightarrow> None)
                     | _ \<Rightarrow> None))))"

text \<open>
  Modelled from the spec: anything else is captured as an \<open>Info\<close> entry carrying the raw
  line (section 4.4, missing backend code).
\<close>

definition parse_line :: "string \<Rightarrow> BuildLogEntry" where
  "parse_line l =
     (case parse_diagnostic l of
        Some e \<Rightarrow> e
      | None \<Rightarrow> \<lparr>severity = Info, message = l, log_file = None, log_line = None\<rparr>)"

text \<open>
  Modelled from the spec: what the toolchain hands back to the validator (section 4.4,
  missing backend code): its exit status and diagnostic lines, or a failure to invoke it
  (missing binary, timeout), which is reported as a single synthetic \<open>Error\<close> entry.
  Exit status 0 is the one that indicates success.
\<close>

datatype toolchain_result = Exited int "string list" | InvocationFailure string

text \<open>
  Modelled from the spec: the log of a validation (section 4.4, missing backend code): one
  entry per line of the diagnostic stream, in order, or the single synthetic \<open>Error\<close>
  entry of an invocation failure.
\<close>

definition build_logs :: "toolchain_result \<Rightarrow> BuildLogEntry list" where
  "build_logs r =
     (case r of
        Exited code ls \<Rightarrow> map parse_line ls
      | InvocationFailure why \<Rightarrow>
          [\<lparr>severity = Error, message = why, log_file = None, log_line = None\<rparr>])"

text \<open>
  Modelled from the spec: the toolchain exit status indicates success (section 4.4,
  missing backend code): the toolchain ran and exited with status 0.
\<close>

definition exit_success :: "toolchain_result \<Rightarrow> bool" where
  "exit_success r = (case r of Exited code ls \<Rightarrow> code = 0 | InvocationFailure why \<Rightarrow> False)"

text \<open>
  Modelled from the spec: the contract \<open>validate\<close> of section 4.4 (missing backend code),
  from the toolchain's result on: \<open>passed\<close> is true iff there are no \<open>Error\<close>-severity
  entries and the toolchain exit status indicates success.
\<close>

definition validate :: "toolchain_result \<Rightarrow> bool \<times> BuildLogEntry list" where
  "validate r =
     (let logs = build_logs r
      in (exit_success r \<and> \<not> list_ex (\<lambda>e. severity e = Error) logs, logs))"

section \<open>The orchestrator\<close>

text \<open>
  Modelled from the spec: the states of the Orchestrator's state machine (section 4.6).
  The Orchestrator is backend code missing from the sources.
\<close>

datatype Status =
  Queued | Analyzing | Generating | Building | Refining | BuildFixing | Succeeded | Failed

text \<open>
  Modelled from the spec: the three stages of the prompt protocol (section 4.2, missing
  backend code).
\<close>

datatype Stage = InitialGeneration | Refinement | BuildFix

text \<open>
  Modelled from the spec: the failure classes the Model Client surfaces to the
  Orchestrator (section 4.3, missing backend code).
\<close>

datatype ModelFailure =
  Timeout | RateLimited | AuthFailure | ProviderUnavailable | MalformedResponse

text \<open>
  Modelled from the spec: \<open>RateLimited\<close> and \<open>ProviderUnavailable\<close> are retryable,
  the others are not (section 4.3, missing backend code).
\<close>

definition retryable :: "ModelFailure \<Rightarrow> bool" where
  "retryable f \<longleftrightarrow> f = RateLimited \<or> f = ProviderUnavailable"

text \<open>
  Modelled from the spec: the terminal states of the state machine (section 4.6, missing
  backend code) are \<open>Succeeded\<close> and \<open>Failed\<close>.
\<close>

definition terminal :: "Status \<Rightarrow> bool" where
  "terminal st \<longleftrightarrow> st = Succeeded \<or> st = Failed"

text \<open>
  Modelled from the spec: the configuration of a run (missing backend code): the coverage
  threshold of the GenerationRequest and the two retry ceilings of section 4.6.
\<close>

record config =
  coverage_threshold :: rat
  build_fix_budget :: nat
  refinement_budget :: nat

text \<open>
  Modelled from the spec: the state a Run owns (sections 3 and 4.6, missing backend code):
  its status, the stage of the prompt in flight, the attempts that remain in each budget,
  the number of Building attempts made and the verdict of the last one.
\<close>

record run =
  status :: Status
  stage :: Stage
  build_fix_left :: nat
  refine_left :: nat
  building_attempts :: nat
  last_build :: "(bool \<times> rat) option"

text \<open>
  Modelled from the spec: what the collaborators answer at one step of a run (missing
  backend code): whether the analyzer itself worked, the Model Client's reply (\<open>None\<close>
  is generated text, otherwise the failure class), and the Build Validator's verdict with
  the coverage estimated for the validated tests. A step reads the answer of the
  collaborator its state waits for.
\<close>

record outcome =
  analyzer_ok :: bool
  model_reply :: "ModelFailure option"
  build_passed :: bool
  coverage :: rat

text \<open>
  Modelled from the spec: a run starts \<open>Queued\<close> with both budgets at their ceilings
  (section 4.6, missing backend code).
\<close>

definition init :: "config \<Rightarrow> run" where
  "init cfg =
     \<lparr>status = Queued, stage = InitialGeneration,
      build_fix_left = build_fix_budget cfg, refine_left = refinement_budget cfg,
      building_attempts = 0, last_build = None\<rparr>"

text \<open>
  Modelled from the spec: the Building outcome of section 4.6 (missing backend code):
  pass and coverage at least the threshold gives \<open>Succeeded\<close>; pass, coverage below the
  threshold and refinement attempts remaining gives \<open>Refining\<close>; fail and build-fix
  attempts remaining gives \<open>BuildFixing\<close>; fail or under-coverage with no attempts
  remaining gives \<open>Failed\<close>. Entering \<open>Refining\<close> or \<open>BuildFixing\<close> consumes one
  attempt of that budget (Scenario C).
\<close>

definition building_outcome :: "config \<Rightarrow> run \<Rightarrow> bool \<Rightarrow> rat \<Rightarrow> run" where
  "building_outcome cfg s pass cov =
     (let s' = s\<lparr>building_attempts := building_attempts s + 1, last_build := Some (pass, cov)\<rparr>
      in if pass \<and> coverage_threshold cfg \<le> cov then s'\<lparr>status := Succeeded\<rparr>
         else if pass then
           (if 0 < refine_left s
            then s'\<lparr>status := Refining, refine_left := refine_left s - 1\<rparr>
            else s'\<lparr>status := Failed\<rparr>)
         else
           (if 0 < build_fix_left s
            then s'\<lparr>status := BuildFixing, build_fix_left := build_fix_left s - 1\<rparr>
            else s'\<lparr>status := Failed\<rparr>))"

text \<open>
  Modelled from the spec: a Model Client failure met in a stage (sections 4.3 and 4.6,
  missing backend code). A retryable failure consumes one attempt from the budget of the
  stage that triggered it and the invocation is retried; with no attempt left, or on any
  other failure, the run is \<open>Failed\<close>. The spec names no budget for the initial
  generation stage, so a failure there is terminal.
\<close>

definition model_failure :: "run \<Rightarrow> ModelFailure \<Rightarrow> run" where
  "model_failure s f =
     (if \<not> retryable f then s\<lparr>status := Failed\<rparr>
      else (case stage s of
              InitialGeneration \<Rightarrow> s\<lparr>status := Failed\<rparr>
            | Refinement \<Rightarrow>
                if 0 < refine_left s then s\<lparr>refine_left := refine_left s - 1\<rparr>
                else s\<lparr>status := Failed\<rparr>
            | BuildFix \<Rightarrow>
                if 0 < build_fix_left s then s\<lparr>build_fix_left := build_fix_left s - 1\<rparr>
                else s\<lparr>status := Failed\<rparr>))"

text \<open>
  Modelled from the spec: one transition of the state machine of section 4.6 (missing
  backend code). \<open>Queued\<close> starts the analysis; a failure of the analyzer itself is
  fatal; \<open>Generating\<close> invokes the Model Client with the prompt of the current stage and
  hands the fresh tests to \<open>Building\<close>; \<open>Refining\<close> builds the Refinement prompt and
  goes back to \<open>Generating\<close>; \<open>BuildFixing\<close> invokes the Model Client with the
  BuildFix prompt and goes back to \<open>Building\<close>; \<open>Succeeded\<close> and \<open>Failed\<close> are
  final.
\<close>

definition step :: "config \<Rightarrow> run \<Rightarrow> outcome \<Rightarrow> run" where
  "step cfg s out =
     (case status s of
        Queued \<Rightarrow> s\<lparr>status := Analyzing\<rparr>
      | Analyzing \<Rightarrow>
          if analyzer_ok out then s\<lparr>status := Generating, stage := InitialGeneration\<rparr>
          else s\<lparr>status := Failed\<rparr>
      | Generating \<Rightarrow>
          (case model_reply out of
             None \<Rightarrow> s\<lparr>status := Building\<rparr>
           | Some f \<Rightarrow> model_failure s f)
      | Building \<Rightarrow> building_outcome cfg s (build_passed out) (coverage out)
      | Refining \<Rightarrow> s\<lparr>status := Generating, stage := Refinement\<rparr>
      | BuildFixing \<Rightarrow>
          (case model_reply out of
             None \<Rightarrow> s\<lparr>status := Building\<rparr>
           | Some f \<Rightarrow> model_failure (s\<lparr>stage := BuildFix\<rparr>) f)
      | Succeeded \<Rightarrow> s
      | Failed \<Rightarrow> s)"

text \<open>
  Modelled from the spec: a Run (section 3, missing backend code) is the sequence of
  iterations from \<open>Queued\<close> on; \<open>exec cfg env n\<close> is its state after \<open>n\<close> transitions
  when the collaborators answer \<open>env i\<close> at transition \<open>i\<close>.
\<close>

fun exec :: "config \<Rightarrow> (nat \<Rightarrow> outcome) \<Rightarrow> nat \<Rightarrow> run" where
  "exec cfg env 0 = init cfg"
| "exec cfg env (Suc n) = step cfg (exec cfg env n) (env n)"

text \<open>
  Modelled from the spec: the states a Run (section 3, missing backend code) can be in:
  those reached from the initial state by transitions, under any answers.
\<close>

inductive reachable :: "config \<Rightarrow> run \<Rightarrow> bool" for cfg :: config where
  reachable_init: "reachable cfg (init cfg)"
| reachable_step: "reachable cfg s \<Longrightarrow> reachable cfg (step cfg s out)"

text \<open>
  A measure for the termination of runs: the number of transitions a status is away from
  a verdict of \<open>Building\<close> at most, when no attempt is consumed on the way.
\<close>

definition rank :: "Status \<Rightarrow> nat" where
  "rank st =
     (case st of
        Queued \<Rightarrow> 4 | Analyzing \<Rightarrow> 3 | Generating \<Rightarrow> 2 | Building \<Rightarrow> 1
      | Refining \<Rightarrow> 3 | BuildFixing \<Rightarrow> 2 | Succeeded \<Rightarrow> 0 | Failed \<Rightarrow> 0)"

text \<open>
  A bound on the transitions a run can still make: three per remaining attempt, plus the
  rank of its status.
\<close>

definition steps_left :: "run \<Rightarrow> nat" where
  "steps_left s = 3 * (build_fix_left s + refine_left s) + rank (status s)"

section \<open>The matcher finds only strings of the pattern\<close>

text \<open>
  Whatever the backtracking matcher returns is the length of a prefix that belongs to the
  language of the pattern, and whatever the global search collects is such a prefix of a
  suffix of the text.
\<close>

lemma in_lang_Cons:
  "in_lang ((p, q) # as) s \<longleftrightarrow>
     (\<exists>i. i \<le> length s \<and> count_ok q i \<and> list_all p (take i s) \<and> in_lang as (drop i s))"
  unfolding in_lang.simps list_ex_iff set_upt by (auto simp: less_Suc_eq_le)

declare in_lang.simps(2) [simp del]

lemma greedy_star_sound:
  "greedy_star p k s = Some n \<Longrightarrow>
     \<exists>i m. i \<le> length s \<and> list_all p (take i s) \<and> k (drop i s) = Some m \<and> n = i + m"
proof (induction s arbitrary: n)
  case Nil
  then show ?case by simp
next
  case (Cons c cs)
  show ?case
  proof (cases "p c \<and> greedy_star p k cs \<noteq> None")
    case True
    then obtain n' where g: "greedy_star p k cs = Some n'" by auto
    with True Cons.prems have n: "n = Suc n'" by simp
    from Cons.IH [OF g] obtain i m where
      "i \<le> length cs" "list_all p (take i cs)" "k (drop i cs) = Some m" "n' = i + m" by blast
    with True n have "Suc i \<le> length (c # cs) \<and> list_all p (take (Suc i) (c # cs)) \<and>
      k (drop (Suc i) (c # cs)) = Some m \<and> n = Suc i + m" by simp
    then show ?thesis by blast
  next
    case False
    with Cons.prems have "k (c # cs) = Some n" by (auto split: if_splits option.splits)
    then have "0 \<le> length (c # cs) \<and> list_all p (take 0 (c # cs)) \<and>
      k (drop 0 (c # cs)) = Some n \<and> n = 0 + n" by simp
    then show ?thesis by blast
  qed
qed

lemma lazy_star_sound:
  "lazy_star p k s = Some n \<Longrightarrow>
     \<exists>i m. i \<le> length s \<and> list_all p (take i s) \<and> k (drop i s) = Some m \<and> n = i + m"
proof (induction s arbitrary: n)
  case Nil
  then show ?case by simp
next
  case (Cons c cs)
  show ?case
  proof (cases "k (c # cs)")
    case (Some n0)
    with Cons.prems have "0 \<le> length (c # cs) \<and> list_all p (take 0 (c # cs)) \<and>
      k (drop 0 (c # cs)) = Some n \<and> n = 0 + n" by simp
    then show ?thesis by blast
  next
    case None
    with Cons.prems obtain n' where pc: "p c" and g: "lazy_star p k cs = Some n'" and n: "n = Suc n'"
      by (auto split: if_splits)
    from Cons.IH [OF g] obtain i m where
      "i \<le> length cs" "list_all p (take i cs)" "k (drop i cs) = Some m" "n' = i + m" by blast
    with pc n have "Suc i \<le> length (c # cs) \<and> list_all p (take (Suc i) (c # cs)) \<and>
      k (drop (Suc i) (c # cs)) = Some m \<and> n = Suc i + m" by simp
    then show ?thesis by blast
  qed
qed

lemma one_char_sound:
  "one_char p k s = Some n \<Longrightarrow>
     \<exists>m. 1 \<le> length s \<and> list_all p (take 1 s) \<and> k (drop 1 s) = Some m \<and> n = 1 + m"
  by (cases s) (auto split: if_splits)

lemma match_atom_sound:
  assumes "match_atom (p, q) k s = Some n"
  shows "\<exists>i m. i \<le> length s \<and> count_ok q i \<and> list_all p (take i s) \<and>
           k (drop i s) = Some m \<and> n = i + m"
proof (cases q)
  case One
  with assms one_char_sound [of p k s n] show ?thesis by (auto simp: count_ok_def)
next
  case Plus
  with assms have "one_char p (greedy_star p k) s = Some n" by simp
  from one_char_sound [OF this] obtain n' where
    s: "1 \<le> length s" "list_all p (take 1 s)" and g: "greedy_star p k (drop 1 s) = Some n'"
    and n: "n = 1 + n'" by blast
  from greedy_star_sound [OF g] obtain i m where
    i: "i \<le> length (drop 1 s)" "list_all p (take i (drop 1 s))"
       "k (drop i (drop 1 s)) = Some m" "n' = i + m" by blast
  from s obtain c cs where cs: "s = c # cs" by (cases s) auto
  with s i n have "Suc i \<le> length s \<and> count_ok q (Suc i) \<and> list_all p (take (Suc i) s) \<and>
     k (drop (Suc i) s) = Some m \<and> n = Suc i + m"
    by (simp add: count_ok_def Plus)
  then show ?thesis by blast
next
  case Star
  with assms greedy_star_sound [of p k s n] show ?thesis by (auto simp: count_ok_def)
next
  case LazyStar
  with assms lazy_star_sound [of p k s n] show ?thesis by (auto simp: count_ok_def)
qed

lemma match_seq_sound:
  "match_seq re s = Some n \<Longrightarrow> n \<le> length s \<and> in_lang re (take n s)"
proof (induction re arbitrary: s n)
  case Nil
  then show ?case by simp
next
  case (Cons a as)
  obtain p q where a: "a = (p, q)" by (cases a)
  from Cons.prems a have "match_atom (p, q) (match_seq as) s = Some n" by simp
  from match_atom_sound [OF this] obtain i m where
    i: "i \<le> length s" "count_ok q i" "list_all p (take i s)"
    and m: "match_seq as (drop i s) = Some m" and n: "n = i + m" by blast
  from Cons.IH [OF m] have ih: "m \<le> length (drop i s)" "in_lang as (take m (drop i s))" by simp_all
  have le: "n \<le> length s" using i ih n by simp
  have "i \<le> length (take n s)" using i n le by simp
  moreover have "take i (take n s) = take i s" using n by (simp add: min_def)
  moreover have "drop i (take n s) = take m (drop i s)" using n by (simp add: drop_take)
  ultimately have "in_lang ((p, q) # as) (take n s)"
    using i ih unfolding in_lang_Cons by metis
  with le a show ?case by simp
qed

lemma scan_sound:
  "f \<in> set (scan m j s) \<Longrightarrow> \<exists>t n. suffix t s \<and> m t = Some n \<and> f = take n t"
proof (induction m j s rule: scan.induct)
  case (1 m j c cs)
  then show ?case by (auto simp: suffix_Cons)
next
  case (2 m c cs)
  show ?case
  proof (cases "m (c # cs)")
    case None
    with 2 show ?thesis by (auto simp: suffix_Cons)
  next
    case (Some n)
    with "2.prems" have "f = take n (c # cs) \<or> f \<in> set (scan m (n - 1) cs)" by simp
    then show ?thesis
    proof
      assume "f = take n (c # cs)"
      with Some have "suffix (c # cs) (c # cs) \<and> m (c # cs) = Some n \<and> f = take n (c # cs)" by simp
      then show ?thesis by blast
    next
      assume "f \<in> set (scan m (n - 1) cs)"
      from "2.IH"(2) [OF Some this] show ?thesis by (auto simp: suffix_Cons)
    qed
  qed
next
  case (3 m j)
  then obtain n where "m [] = Some n" "f = []"
    by (cases "j = 0"; cases "m []") auto
  then have "suffix [] [] \<and> m [] = Some n \<and> f = take n []" by simp
  then show ?case by blast
qed

lemma in_lang_first:
  "in_lang ((p, Plus) # as) s \<Longrightarrow> s \<noteq> [] \<and> p (hd s)"
proof -
  assume "in_lang ((p, Plus) # as) s"
  then obtain i where i: "i \<le> length s" "1 \<le> i" "list_all p (take i s)"
    unfolding in_lang_Cons by (auto simp: count_ok_def)
  then obtain j where j: "i = Suc j" by (cases i) auto
  from i j obtain c cs where "s = c # cs" by (cases s) auto
  with i j show ?thesis by simp
qed

lemma in_lang_last:
  "in_lang (re @ [(p, One)]) s \<Longrightarrow> s \<noteq> [] \<and> p (last s)"
proof (induction re arbitrary: s)
  case Nil
  then obtain i where "i \<le> length s" "i = 1" "list_all p (take i s)" "drop i s = []"
    unfolding append_Nil in_lang_Cons by (auto simp: count_ok_def)
  then show ?case by (cases s) auto
next
  case (Cons a re)
  obtain p' q where a: "a = (p', q)" by (cases a)
  from Cons.prems a have "in_lang ((p', q) # (re @ [(p, One)])) s" by simp
  then obtain i where "i \<le> length s" "in_lang (re @ [(p, One)]) (drop i s)"
    unfolding in_lang_Cons by blast
  with Cons.IH [of "drop i s"] show ?case by auto
qed

subsection \<open>Trimming\<close>

lemma trim_id: "s \<noteq> [] \<Longrightarrow> \<not> is_space (hd s) \<Longrightarrow> \<not> is_space (last s) \<Longrightarrow> trim s = s"
proof -
  assume s: "s \<noteq> []" and h: "\<not> is_space (hd s)" and l: "\<not> is_space (last s)"
  from h have 1: "dropWhile is_space s = s" by (simp add: dropWhile_eq_self_iff)
  from s l have "\<not> is_space (hd (rev s))" by (simp add: hd_rev)
  then have 2: "dropWhile is_space (rev s) = rev s" by (simp add: dropWhile_eq_self_iff)
  show ?thesis by (simp add: trim_def 1 2)
qed

lemma dropWhile_rev_start:
  "dropWhile P (rev (dropWhile P (rev (dropWhile P s)))) = rev (dropWhile P (rev (dropWhile P s)))"
  by (metis (no_types, lifting) ext Nil_is_rev_conv dropWhile_eq_Nil_conv
    dropWhile_eq_self_iff dropWhile_last hd_dropWhile hd_rev last_rev)

lemma trim_idem: "trim (trim s) = trim s"
  by (simp add: trim_def dropWhile_rev_start)

lemma word_not_space: "is_word c \<Longrightarrow> \<not> is_space c"
  by (auto simp: is_word_def is_space_def)

subsection \<open>The matches of functionRegex\<close>

lemma functionRegex_match_shape:
  assumes "match_seq functionRegex t = Some n"
  shows "n \<le> length t \<and> in_lang functionRegex (take n t) \<and> trim (take n t) = take n t"
proof -
  from match_seq_sound [OF assms] have n: "n \<le> length t" and l: "in_lang functionRegex (take n t)"
    by simp_all
  from l have "take n t \<noteq> [] \<and> is_word (hd (take n t))"
    unfolding functionRegex_def by (rule in_lang_first)
  moreover have "functionRegex =
     [(is_word, Plus), (is_space, Plus), (is_char CHR ''*'', Star), (is_word, Plus),
      (is_space, Star), (is_char CHR ''('', One), (is_dot, LazyStar), (is_char CHR '')'', One),
      (is_space, Star)] @ [(is_char CHR ''{'', One)]"
    by (simp add: functionRegex_def)
  with l have "is_char CHR ''{'' (last (take n t))"
    using in_lang_last by metis
  then have "\<not> is_space (last (take n t))" by (simp add: is_char_def is_space_def)
  ultimately have "trim (take n t) = take n t" using word_not_space trim_id by blast
  with n l show ?thesis by simp
qed

lemma scan_functionRegex_elem:
  assumes "g \<in> set (scan (match_seq functionRegex) j s)"
  shows "in_lang functionRegex g \<and> sublist g s \<and> trim g = g"
proof -
  from scan_sound [OF assms] obtain t n where
    t: "suffix t s" and m: "match_seq functionRegex t = Some n" and g: "g = take n t" by blast
  from functionRegex_match_shape [OF m] g have "in_lang functionRegex g" "trim g = g" by simp_all
  moreover have "prefix g t" using g by (simp add: take_is_prefix)
  with t have "sublist g s" by (meson prefix_imp_sublist suffix_imp_sublist sublist_order.order_trans)
  ultimately show ?thesis by simp
qed

lemma extractFunctions_eq_scan:
  "extractFunctions src = map trim (scan (match_seq functionRegex) 0 src)"
  by (simp add: extractFunctions_def str_match_def split: list.splits)

lemma extractFunctions_elem:
  assumes "f \<in> set (extractFunctions src)"
  shows "in_lang functionRegex f \<and> sublist f src \<and> trim f = f"
proof -
  from assms obtain g where g: "g \<in> set (scan (match_seq functionRegex) 0 src)" and f: "f = trim g"
    unfolding extractFunctions_eq_scan by auto
  from scan_functionRegex_elem [OF g] f show ?thesis by simp
qed

lemma extractFunctions_skip_nonword:
  assumes "\<not> is_word c"
  shows "extractFunctions (c # cs) = extractFunctions cs"
proof -
  from assms have "match_seq functionRegex (c # cs) = None" by (simp add: functionRegex_def)
  then show ?thesis by (simp add: extractFunctions_eq_scan)
qed

section \<open>Claims about the source analyzer\<close>

text \<open>
  Claim C1 says that the analyzer tokenizes the text, ignores the contents of string and
  character literals and of comments, and balances brackets, so that a declaration inside
  a string literal or comment is never extracted. \<open>extractFunctions\<close> has no
  tokenizer: it matches \<open>functionRegex\<close> over the raw text. A declaration in a line
  comment is extracted, so is one in a string literal (the double quote is code unit
  0x22), and so is a text whose parentheses do not balance.
\<close>

theorem extractFunctions_comment_counterexample:
  "extractFunctions ''// int foo() {'' = [''int foo() {'']
   \<and> extractFunctions (''s = '' @ [CHR 0x22] @ ''int foo() {'' @ [CHR 0x22] @ '';'')
       = [''int foo() {'']
   \<and> extractFunctions ''x y(() {'' = [''x y(() {'']"
  by (simp add: extractFunctions_def str_match_def functionRegex_def is_word_def is_space_def
      is_dot_def is_char_def trim_def)

text \<open>
  Claim C1 as amended: \<open>extractFunctions\<close> matches the regular expression over the raw
  text. Every extracted string is a contiguous piece of the text that belongs to the
  language of \<open>functionRegex\<close>; literals and comments are not ignored, so the text
  after a comment marker \<open>//\<close> or after an opening double quote (code unit 0x22) is
  extracted exactly as it is without the marker.
\<close>

theorem extractFunctions_raw_regex:
  "(\<forall>f \<in> set (extractFunctions src). in_lang functionRegex f \<and> sublist f src)
   \<and> extractFunctions (''//'' @ src) = extractFunctions src
   \<and> extractFunctions (CHR 0x22 # src) = extractFunctions src"
proof -
  have "\<not> is_word CHR ''/''" "\<not> is_word (CHR 0x22)" by (simp_all add: is_word_def)
  then show ?thesis using extractFunctions_elem by (simp add: extractFunctions_skip_nonword)
qed

theorem extractFunctions_raw_regex_witness:
  "in_lang functionRegex ''int foo() {'' \<and> sublist ''int foo() {'' ''// int foo() {''"
proof -
  have e: "extractFunctions ''// int foo() {'' = [''int foo() {'']"
    by (simp add: extractFunctions_def str_match_def functionRegex_def is_word_def is_space_def
      is_dot_def is_char_def trim_def)
  show ?thesis using extractFunctions_raw_regex [of "''// int foo() {''"] unfolding e by simp
qed

text \<open>
  Claim C9: \<open>extractFunctions\<close> returns a list on every string. When \<open>match\<close> finds
  nothing and returns \<open>null\<close>, the result is the empty list; otherwise \<open>match\<close>
  returns a non-empty list and the result is that list with every string trimmed; in both
  cases every element of the result is a trimmed string.
\<close>

theorem extractFunctions_total:
  "(str_match functionRegex src = None \<longrightarrow> extractFunctions src = [])
   \<and> (\<forall>ms. str_match functionRegex src = Some ms \<longrightarrow>
          ms \<noteq> [] \<and> extractFunctions src = map trim ms)
   \<and> (\<forall>f \<in> set (extractFunctions src). trim f = f)"
proof (intro conjI allI impI ballI)
  assume "str_match functionRegex src = None"
  then show "extractFunctions src = []" by (simp add: extractFunctions_def)
next
  fix ms assume m: "str_match functionRegex src = Some ms"
  then show "ms \<noteq> []" unfolding str_match_def by (cases "scan (match_seq functionRegex) 0 src") auto
  from m show "extractFunctions src = map trim ms" by (simp add: extractFunctions_def)
next
  fix f assume "f \<in> set (extractFunctions src)"
  then obtain g where "f = trim g" unfolding extractFunctions_eq_scan by auto
  then show "trim f = f" by (simp add: trim_idem)
qed

theorem extractFunctions_total_witness:
  "str_match functionRegex ''int x;'' = None \<and> extractFunctions ''int x;'' = []
   \<and> str_match functionRegex ''int f() {'' = Some [''int f() {'']
   \<and> extractFunctions ''int f() {'' = map trim [''int f() {'']
   \<and> trim ''int f() {'' = ''int f() {''"
proof -
  have a: "str_match functionRegex ''int x;'' = None"
    by (simp add: str_match_def functionRegex_def is_word_def is_space_def is_dot_def is_char_def)
  have b: "str_match functionRegex ''int f() {'' = Some [''int f() {'']"
    by (simp add: str_match_def functionRegex_def is_word_def is_space_def is_dot_def is_char_def)
  from a extractFunctions_total [of "''int x;''"] have 1: "extractFunctions ''int x;'' = []"
    by blast
  from b extractFunctions_total [of "''int f() {''"]
  have 2: "extractFunctions ''int f() {'' = map trim [''int f() {'']"
    and 3: "\<forall>f \<in> set (extractFunctions ''int f() {''). trim f = f" by blast+
  have "trim ''int f() {'' \<in> set (extractFunctions ''int f() {'')" unfolding 2 by simp
  with 3 have "trim (trim ''int f() {'') = trim ''int f() {''" by blast
  then have 4: "trim ''int f() {'' = ''int f() {''" by (simp add: trim_def is_space_def)
  from a b 1 2 4 show ?thesis by blast
qed

subsection \<open>parseCppFiles\<close>

lemma parseLoop_append:
  "parseLoop acc fs =
     acc @ map (\<lambda>f. \<lparr>fileName = name f, functions_list = extractFunctions (content f)\<rparr>)
             (filter (\<lambda>f. endsWith (name f) ''.cpp'') fs)"
  by (induction fs arbitrary: acc) simp_all

lemma endsWith_last: "endsWith s t \<Longrightarrow> t \<noteq> [] \<Longrightarrow> last s = last t"
  unfolding endsWith_def
  by (metis last_drop length_0_conv diff_less length_greater_0_conv drop_eq_Nil)

lemma endsWith_same_length:
  assumes "endsWith s t" "endsWith s u" "length t = length u"
  shows "t = u"
proof -
  from assms have "drop (length s - length u) s = t" "drop (length s - length u) s = u"
    by (simp_all add: endsWith_def)
  then show "t = u" by simp
qed

lemma other_extension_not_cpp:
  assumes "e \<in> set [''.hpp'', ''.h'', ''.cc'', ''.cxx'']" and "endsWith n e"
  shows "\<not> endsWith n ''.cpp''"
proof
  assume c: "endsWith n ''.cpp''"
  from assms(1) consider "e = ''.hpp''" | "e = ''.h''" | "e = ''.cc''" | "e = ''.cxx''" by auto
  then show False
  proof cases
    case 1 with c assms(2) show False using endsWith_same_length [of n "''.hpp''" "''.cpp''"] by simp
  next
    case 2 with c assms(2) show False using endsWith_last [of n "''.h''"] endsWith_last [of n "''.cpp''"] by simp
  next
    case 3 with c assms(2) show False using endsWith_last [of n "''.cc''"] endsWith_last [of n "''.cpp''"] by simp
  next
    case 4 with c assms(2) show False using endsWith_last [of n "''.cxx''"] endsWith_last [of n "''.cpp''"] by simp
  qed
qed

text \<open>
  Claim C8: \<open>parseCppFiles\<close> produces exactly one entry per file whose name ends with
  \<open>.cpp\<close>, in input order, carrying the file's name and its extracted functions; a file
  whose name ends with \<open>.hpp\<close>, \<open>.h\<close>, \<open>.cc\<close> or \<open>.cxx\<close> contributes no
  entry, wherever it stands in the list.
\<close>

theorem parseCppFiles_cpp_only:
  "parseCppFiles files =
     map (\<lambda>f. \<lparr>fileName = name f, functions_list = extractFunctions (content f)\<rparr>)
         (filter (\<lambda>f. endsWith (name f) ''.cpp'') files)
   \<and> (\<forall>e \<in> set [''.hpp'', ''.h'', ''.cc'', ''.cxx''].
        endsWith (name f) e \<longrightarrow> parseCppFiles (pre @ f # post) = parseCppFiles (pre @ post))"
  using other_extension_not_cpp [of _ "name f"]
  by (simp add: parseCppFiles_def parseLoop_append del: set_simps)

theorem parseCppFiles_cpp_only_witness:
  "parseCppFiles [\<lparr>name = ''a.cpp'', content = ''int f() {}''\<rparr>,
                  \<lparr>name = ''a.hpp'', content = ''int g() {}''\<rparr>,
                  \<lparr>name = ''b.cpp'', content = ''int x;''\<rparr>]
     = [\<lparr>fileName = ''a.cpp'', functions_list = [''int f() {'']\<rparr>,
        \<lparr>fileName = ''b.cpp'', functions_list = []\<rparr>]
   \<and> ''.hpp'' \<in> set [''.hpp'', ''.h'', ''.cc'', ''.cxx''] \<and> endsWith ''a.hpp'' ''.hpp''
   \<and> parseCppFiles [\<lparr>name = ''a.cpp'', content = ''int f() {}''\<rparr>,
                      \<lparr>name = ''a.hpp'', content = ''int g() {}''\<rparr>,
                      \<lparr>name = ''b.cpp'', content = ''int x;''\<rparr>]
     = parseCppFiles [\<lparr>name = ''a.cpp'', content = ''int f() {}''\<rparr>,
                      \<lparr>name = ''b.cpp'', content = ''int x;''\<rparr>]"
proof -
  have e1: "extractFunctions ''int f() {}'' = [''int f() {'']"
    by (simp add: extractFunctions_def str_match_def functionRegex_def is_word_def is_space_def
      is_dot_def is_char_def trim_def)
  have e2: "extractFunctions ''int x;'' = []"
    by (simp add: extractFunctions_def str_match_def functionRegex_def is_word_def is_space_def
      is_dot_def is_char_def trim_def)
  have h: "endsWith ''a.hpp'' ''.hpp''" by (simp add: endsWith_def)
  have c: "endsWith ''a.cpp'' ''.cpp''" "endsWith ''b.cpp'' ''.cpp''" "\<not> endsWith ''a.hpp'' ''.cpp''"
    by (simp_all add: endsWith_def)
  note t = parseCppFiles_cpp_only [of _ "\<lparr>name = ''a.hpp'', content = ''int g() {}''\<rparr>"
        "[\<lparr>name = ''a.cpp'', content = ''int f() {}''\<rparr>]" "[\<lparr>name = ''b.cpp'', content = ''int x;''\<rparr>]"]
  from t [THEN conjunct1,
      of "[\<lparr>name = ''a.cpp'', content = ''int f() {}''\<rparr>, \<lparr>name = ''a.hpp'', content = ''int g() {}''\<rparr>,
           \<lparr>name = ''b.cpp'', content = ''int x;''\<rparr>]"]
  have 1: "parseCppFiles [\<lparr>name = ''a.cpp'', content = ''int f() {}''\<rparr>,
                  \<lparr>name = ''a.hpp'', content = ''int g() {}''\<rparr>,
                  \<lparr>name = ''b.cpp'', content = ''int x;''\<rparr>]
     = [\<lparr>fileName = ''a.cpp'', functions_list = [''int f() {'']\<rparr>,
        \<lparr>fileName = ''b.cpp'', functions_list = []\<rparr>]"
    by (simp add: c e1 e2)
  from t [THEN conjunct2] h
  have 2: "parseCppFiles [\<lparr>name = ''a.cpp'', content = ''int f() {}''\<rparr>,
                      \<lparr>name = ''a.hpp'', content = ''int g() {}''\<rparr>,
                      \<lparr>name = ''b.cpp'', content = ''int x;''\<rparr>]
     = parseCppFiles [\<lparr>name = ''a.cpp'', content = ''int f() {}''\<rparr>,
                      \<lparr>name = ''b.cpp'', content = ''int x;''\<rparr>]"
    by simp
  from 1 2 h show ?thesis by simp
qed

text \<open>
  Claim C7: the analysis is deterministic and idempotent. Its result is a function of the
  names and contents of the files alone: two runs on lists of files with the same names
  and the same text return the same list, whatever else the file objects carry, so
  running it again on the same text returns the same result.
\<close>

theorem parseCppFiles_deterministic:
  fixes fs :: "'a file_obj_scheme list" and fs' :: "'b file_obj_scheme list"
  assumes "map name fs = map name fs'" and "map content fs = map content fs'"
  shows "parseCppFiles fs = parseCppFiles fs'"
  using assms
proof (induction fs arbitrary: fs')
  case Nil
  then show ?case by (simp add: parseCppFiles_def)
next
  case (Cons f fs)
  then obtain g gs where g: "fs' = g # gs" by (cases fs') auto
  with Cons.prems have "name f = name g" "content f = content g"
    "map name fs = map name gs" "map content fs = map content gs" by simp_all
  with Cons.IH [of gs] g show ?case
    by (simp add: parseCppFiles_def parseLoop_append)
qed

theorem parseCppFiles_deterministic_witness:
  "map name [\<lparr>name = ''a.cpp'', content = ''int f() {}'', \<dots> = (1::nat)\<rparr>]
     = map name [\<lparr>name = ''a.cpp'', content = ''int f() {}'', \<dots> = True\<rparr>]
   \<and> map content [\<lparr>name = ''a.cpp'', content = ''int f() {}'', \<dots> = (1::nat)\<rparr>]
     = map content [\<lparr>name = ''a.cpp'', content = ''int f() {}'', \<dots> = True\<rparr>]
   \<and> parseCppFiles [\<lparr>name = ''a.cpp'', content = ''int f() {}'', \<dots> = (1::nat)\<rparr>]
     = parseCppFiles [\<lparr>name = ''a.cpp'', content = ''int f() {}'', \<dots> = True\<rparr>]"
proof -
  have n: "map name [\<lparr>name = ''a.cpp'', content = ''int f() {}'', \<dots> = (1::nat)\<rparr>]
     = map name [\<lparr>name = ''a.cpp'', content = ''int f() {}'', \<dots> = True\<rparr>]" by simp
  have c: "map content [\<lparr>name = ''a.cpp'', content = ''int f() {}'', \<dots> = (1::nat)\<rparr>]
     = map content [\<lparr>name = ''a.cpp'', content = ''int f() {}'', \<dots> = True\<rparr>]" by simp
  from n c parseCppFiles_deterministic [OF n c] show ?thesis by blast
qed

section \<open>Claims about the file uploader\<close>

lemma has_extension_iff:
  "has_extension exts f \<longleftrightarrow> (\<exists>ext \<in> set exts. endsWith (toLowerCase (name f)) ext)"
  by (simp add: has_extension_def list_ex_iff)

text \<open>
  Claim C10: in the individual-files mode \<open>addFiles\<close> appends to the selection exactly
  the input files whose lower-cased name ends with one of \<open>.cpp\<close>, \<open>.hpp\<close>, \<open>.h\<close>,
  \<open>.cc\<close>, \<open>.cxx\<close>, \<open>.c++\<close>, in their order, and changes nothing else; when no
  input file has such a name it calls the error callback and leaves the selection as it
  was.
\<close>

theorem addFiles_individual_files:
  assumes "uploadMode st = Files"
  shows "(filter (has_extension cppFileExtensions) files \<noteq> [] \<longrightarrow>
            addFiles files st
              = st\<lparr>selectedFiles := selectedFiles st @ filter (has_extension cppFileExtensions) files\<rparr>)
       \<and> (filter (has_extension cppFileExtensions) files = [] \<longrightarrow>
            selectedFiles (addFiles files st) = selectedFiles st
          \<and> errors (addFiles files st)
              = errors st @ [''Please select C++ files (.cpp, .hpp, .h, .cc, .cxx, .c++)''])
       \<and> (\<forall>f. has_extension cppFileExtensions f \<longleftrightarrow>
              (\<exists>ext \<in> set [''.cpp'', ''.hpp'', ''.h'', ''.cc'', ''.cxx'', ''.c++''].
                 endsWith (toLowerCase (name f)) ext))"
  using assms
  by (simp add: addFiles_def onError_def Let_def has_extension_iff cppFileExtensions_def
      del: set_simps)

theorem addFiles_individual_files_witness:
  "uploadMode \<lparr>selectedFiles = [\<lparr>name = ''x.h''\<rparr>], uploadMode = Files, errors = []\<rparr> = Files
   \<and> addFiles [\<lparr>name = ''A.CPP''\<rparr>, \<lparr>name = ''notes.txt''\<rparr>, \<lparr>name = ''b.c++''\<rparr>]
         \<lparr>selectedFiles = [\<lparr>name = ''x.h''\<rparr>], uploadMode = Files, errors = []\<rparr>
       = \<lparr>selectedFiles = [\<lparr>name = ''x.h''\<rparr>, \<lparr>name = ''A.CPP''\<rparr>, \<lparr>name = ''b.c++''\<rparr>],
          uploadMode = Files, errors = []\<rparr>
   \<and> selectedFiles (addFiles [\<lparr>name = ''notes.txt''\<rparr>]
         \<lparr>selectedFiles = [\<lparr>name = ''x.h''\<rparr>], uploadMode = Files, errors = []\<rparr>)
       = [\<lparr>name = ''x.h''\<rparr>]
   \<and> errors (addFiles [\<lparr>name = ''notes.txt''\<rparr>]
         \<lparr>selectedFiles = [\<lparr>name = ''x.h''\<rparr>], uploadMode = Files, errors = []\<rparr>)
       = [''Please select C++ files (.cpp, .hpp, .h, .cc, .cxx, .c++)'']"
proof -
  let ?st = "\<lparr>selectedFiles = [\<lparr>name = ''x.h''\<rparr>], uploadMode = Files, errors = []\<rparr>"
  have m: "uploadMode ?st = Files" by simp
  have a: "has_extension cppFileExtensions \<lparr>name = ''A.CPP''\<rparr>"
    and b: "has_extension cppFileExtensions \<lparr>name = ''b.c++''\<rparr>"
    and n: "\<not> has_extension cppFileExtensions \<lparr>name = ''notes.txt''\<rparr>"
    by (simp_all add: has_extension_def cppFileExtensions_def endsWith_def toLowerCase_def
        lower_char_def)
  from addFiles_individual_files [OF m, THEN conjunct1,
      of "[\<lparr>name = ''A.CPP''\<rparr>, \<lparr>name = ''notes.txt''\<rparr>, \<lparr>name = ''b.c++''\<rparr>]"]
  have 1: "addFiles [\<lparr>name = ''A.CPP''\<rparr>, \<lparr>name = ''notes.txt''\<rparr>, \<lparr>name = ''b.c++''\<rparr>] ?st
       = \<lparr>selectedFiles = [\<lparr>name = ''x.h''\<rparr>, \<lparr>name = ''A.CPP''\<rparr>, \<lparr>name = ''b.c++''\<rparr>],
          uploadMode = Files, errors = []\<rparr>"
    by (simp add: a b n)
  from addFiles_individual_files [OF m, THEN conjunct2, THEN conjunct1, of "[\<lparr>name = ''notes.txt''\<rparr>]"]
  have 2: "selectedFiles (addFiles [\<lparr>name = ''notes.txt''\<rparr>] ?st) = [\<lparr>name = ''x.h''\<rparr>]
      \<and> errors (addFiles [\<lparr>name = ''notes.txt''\<rparr>] ?st)
          = [''Please select C++ files (.cpp, .hpp, .h, .cc, .cxx, .c++)'']"
    by (simp add: n)
  from m 1 2 show ?thesis by blast
qed

section \<open>Claims about the coverage estimator\<close>

lemma symbol_covered_Cons:
  "symbol_covered F (t # tests) s \<longleftrightarrow>
     (source_file t = F \<and> qualified_name s \<in> set (functions_tested t)) \<or> symbol_covered F tests s"
  by (simp add: symbol_covered_def)

lemma symbol_covered_iff:
  "symbol_covered F tests s \<longleftrightarrow>
     (\<exists>t \<in> set tests. source_file t = F \<and> qualified_name s \<in> set (functions_tested t))"
  by (simp add: symbol_covered_def list_ex_iff)

lemma estimate_overall_skip_empty:
  "estimate_overall (pre @ (F, []) # post) tests = estimate_overall (pre @ post) tests"
  by (simp add: estimate_overall_def)

text \<open>
  Claim C2: per-file coverage is covered symbols over total symbols of the file and 0 for
  a file with zero extracted symbols; such a file is excluded from the overall figure;
  and in Scenario A (\<open>math.cpp\<close> with the symbols \<open>add\<close> and \<open>subtract\<close>, one
  test claiming \<open>add\<close>) the per-file and the overall coverage are both one half.
\<close>

theorem coverage_per_file_and_overall:
  "(syms = [] \<longrightarrow> estimate_file F syms tests = 0)
   \<and> (syms \<noteq> [] \<longrightarrow>
        estimate_file F syms tests = of_nat (covered_symbols F syms tests) / of_nat (length syms))
   \<and> estimate_overall (pre @ (F, []) # post) tests = estimate_overall (pre @ post) tests
   \<and> (syms \<noteq> [] \<longrightarrow> estimate_overall [(F, syms)] tests = estimate_file F syms tests)
   \<and> (qualified_name a = ''add'' \<and> qualified_name b = ''subtract''
        \<and> source_file t = ''math.cpp'' \<and> functions_tested t = [''add'']
      \<longrightarrow> estimate_file ''math.cpp'' [a, b] [t] = 1 / 2
        \<and> estimate_overall [(''math.cpp'', [a, b])] [t] = 1 / 2
        \<and> estimate [(''math.cpp'', [a, b])] [t]
            = \<lparr>overall_coverage = 1 / 2, file_coverage = [(''math.cpp'', 1 / 2)]\<rparr>)"
  by (simp add: estimate_file_def estimate_overall_def estimate_def covered_symbols_def
      symbol_covered_def)

theorem coverage_per_file_and_overall_witness:
  "estimate_file ''empty.cpp'' [] [] = 0
   \<and> estimate_file ''math.cpp''
       [\<lparr>kind = Function, qualified_name = ''add'', signature = ''(int, int)'', owning_class = None,
          span_file = ''math.cpp'', start_line = 1, end_line = 3\<rparr>,
        \<lparr>kind = Function, qualified_name = ''subtract'', signature = ''(int, int)'',
          owning_class = None, span_file = ''math.cpp'', start_line = 5, end_line = 7\<rparr>]
       [\<lparr>filename = ''math_test.cpp'', test_content = [], source_file = ''math.cpp'',
          functions_tested = [''add''], coverage_estimate = 1 / 2\<rparr>] = 1 / 2
   \<and> estimate_overall
       [(''math.cpp'',
         [\<lparr>kind = Function, qualified_name = ''add'', signature = ''(int, int)'',
            owning_class = None, span_file = ''math.cpp'', start_line = 1, end_line = 3\<rparr>,
          \<lparr>kind = Function, qualified_name = ''subtract'', signature = ''(int, int)'',
            owning_class = None, span_file = ''math.cpp'', start_line = 5, end_line = 7\<rparr>])]
       [\<lparr>filename = ''math_test.cpp'', test_content = [], source_file = ''math.cpp'',
          functions_tested = [''add''], coverage_estimate = 1 / 2\<rparr>] = 1 / 2"
proof -
  let ?add = "\<lparr>kind = Function, qualified_name = ''add'', signature = ''(int, int)'',
        owning_class = None, span_file = ''math.cpp'', start_line = 1, end_line = 3\<rparr>"
  let ?sub = "\<lparr>kind = Function, qualified_name = ''subtract'', signature = ''(int, int)'',
        owning_class = None, span_file = ''math.cpp'', start_line = 5, end_line = 7\<rparr>"
  let ?t = "\<lparr>filename = ''math_test.cpp'', test_content = [], source_file = ''math.cpp'',
          functions_tested = [''add''], coverage_estimate = 1 / 2\<rparr>"
  have h: "qualified_name ?add = ''add'' \<and> qualified_name ?sub = ''subtract''
        \<and> source_file ?t = ''math.cpp'' \<and> functions_tested ?t = [''add'']" by simp
  from coverage_per_file_and_overall [of "[]" "''empty.cpp''" "[]"]
  have 1: "estimate_file ''empty.cpp'' [] [] = 0" by blast
  from h coverage_per_file_and_overall [of _ _ _ _ _ ?add ?sub ?t]
  have 2: "estimate_file ''math.cpp'' [?add, ?sub] [?t] = 1 / 2
    \<and> estimate_overall [(''math.cpp'', [?add, ?sub])] [?t] = 1 / 2" by blast
  have n: "[?add, ?sub] \<noteq> []" by simp
  from n coverage_per_file_and_overall [of "[?add, ?sub]" "''math.cpp''" "[?t]"]
  have 3: "estimate_overall [(''math.cpp'', [?add, ?sub])] [?t]
      = estimate_file ''math.cpp'' [?add, ?sub] [?t]" by blast
  from 1 2 3 show ?thesis by simp
qed

lemma symbol_covered_name:
  "qualified_name s = qualified_name s' \<Longrightarrow> symbol_covered F tests s = symbol_covered F tests s'"
  by (simp add: symbol_covered_def)

lemma covered_symbols_Cons:
  assumes "source_file t = F"
  shows "covered_symbols F syms (t # tests)
           = covered_symbols F syms tests
             + length (filter (\<lambda>s. qualified_name s \<in> set (functions_tested t)
                                    \<and> \<not> symbol_covered F tests s) syms)"
  using assms by (induction syms) (auto simp: covered_symbols_def symbol_covered_Cons)

lemma covered_symbols_first_claim:
  assumes "source_file t = F" and "functions_tested t = [qualified_name S]"
    and "\<not> symbol_covered F tests S"
  shows "covered_symbols F syms (t # tests)
           = covered_symbols F syms tests
             + length (filter (\<lambda>s. qualified_name s = qualified_name S) syms)"
proof -
  have "(qualified_name s \<in> set (functions_tested t) \<and> \<not> symbol_covered F tests s)
          = (qualified_name s = qualified_name S)" for s
    using assms(2,3) symbol_covered_name [of s S F tests] by auto
  then have "filter (\<lambda>s. qualified_name s \<in> set (functions_tested t)
                          \<and> \<not> symbol_covered F tests s) syms
      = filter (\<lambda>s. qualified_name s = qualified_name S) syms"
    by simp
  with covered_symbols_Cons [OF assms(1), of syms tests] show ?thesis by simp
qed

lemma covered_symbols_further_claim:
  assumes "source_file t = F" and "functions_tested t = [qualified_name S]"
    and "symbol_covered F tests S"
  shows "covered_symbols F syms (t # tests) = covered_symbols F syms tests"
proof -
  have "\<not> (qualified_name s \<in> set (functions_tested t) \<and> \<not> symbol_covered F tests s)" for s
    using assms(2,3) symbol_covered_name [of s S F tests] by auto
  then have "filter (\<lambda>s. qualified_name s \<in> set (functions_tested t)
                          \<and> \<not> symbol_covered F tests s) syms = []"
    by simp
  with covered_symbols_Cons [OF assms(1), of syms tests] show ?thesis by simp
qed

text \<open>
  Claim C6 says that a GeneratedTest claiming \<open>S\<close> for \<open>F\<close> increases the coverage
  numerator of \<open>F\<close> by exactly 1. A symbol is covered through its qualified name, and
  the data model lets two symbols of a file share one (overloads differ in their
  signature): with two symbols named \<open>add\<close> and no test the numerator is 0, and one
  test claiming \<open>add\<close> takes it to 2.
\<close>

theorem covered_overloads_counterexample:
  "covered_symbols ''math.cpp''
     [\<lparr>kind = Function, qualified_name = ''add'', signature = ''(int, int)'', owning_class = None,
        span_file = ''math.cpp'', start_line = 1, end_line = 3\<rparr>,
      \<lparr>kind = Function, qualified_name = ''add'', signature = ''(double, double)'',
        owning_class = None, span_file = ''math.cpp'', start_line = 5, end_line = 7\<rparr>]
     [] = 0
   \<and> covered_symbols ''math.cpp''
     [\<lparr>kind = Function, qualified_name = ''add'', signature = ''(int, int)'', owning_class = None,
        span_file = ''math.cpp'', start_line = 1, end_line = 3\<rparr>,
      \<lparr>kind = Function, qualified_name = ''add'', signature = ''(double, double)'',
        owning_class = None, span_file = ''math.cpp'', start_line = 5, end_line = 7\<rparr>]
     [\<lparr>filename = ''math_test.cpp'', test_content = [], source_file = ''math.cpp'',
        functions_tested = [''add''], coverage_estimate = 1\<rparr>] = 2"
  by (simp add: covered_symbols_def symbol_covered_def)

text \<open>
  Claim C6 as amended: a GeneratedTest targeting \<open>F\<close> raises the coverage numerator of
  \<open>F\<close> by the number of symbols of \<open>F\<close> that were not yet covered and whose qualified
  name it lists. A test claiming only \<open>S\<close>, added when \<open>S\<close> is not yet covered,
  raises it by the number of symbols of \<open>F\<close> that bear the qualified name of \<open>S\<close>: by
  exactly 1 when \<open>S\<close> is the only one. Coveredness is set membership: once \<open>S\<close> is
  covered, a further test that claims it leaves the numerator unchanged.
\<close>

theorem covered_is_set_membership:
  "(source_file t = F \<longrightarrow>
      covered_symbols F syms (t # tests)
        = covered_symbols F syms tests
          + length (filter (\<lambda>s. qualified_name s \<in> set (functions_tested t)
                                 \<and> \<not> symbol_covered F tests s) syms))
   \<and> (source_file t = F \<and> functions_tested t = [qualified_name S]
        \<and> \<not> symbol_covered F tests S \<longrightarrow>
      covered_symbols F syms (t # tests)
        = covered_symbols F syms tests
          + length (filter (\<lambda>s. qualified_name s = qualified_name S) syms))
   \<and> (source_file t = F \<and> functions_tested t = [qualified_name S]
        \<and> \<not> symbol_covered F tests S
        \<and> filter (\<lambda>s. qualified_name s = qualified_name S) syms = [S] \<longrightarrow>
      covered_symbols F syms (t # tests) = covered_symbols F syms tests + 1)
   \<and> (source_file t = F \<and> functions_tested t = [qualified_name S]
        \<and> symbol_covered F tests S \<longrightarrow>
      covered_symbols F syms (t # tests) = covered_symbols F syms tests)"
proof (intro conjI impI)
  assume "source_file t = F"
  then show "covered_symbols F syms (t # tests)
        = covered_symbols F syms tests
          + length (filter (\<lambda>s. qualified_name s \<in> set (functions_tested t)
                                 \<and> \<not> symbol_covered F tests s) syms)"
    by (rule covered_symbols_Cons)
next
  assume "source_file t = F \<and> functions_tested t = [qualified_name S]
        \<and> \<not> symbol_covered F tests S"
  then show "covered_symbols F syms (t # tests)
        = covered_symbols F syms tests
          + length (filter (\<lambda>s. qualified_name s = qualified_name S) syms)"
    using covered_symbols_first_claim [of t F S tests syms] by blast
next
  assume a: "source_file t = F \<and> functions_tested t = [qualified_name S]
        \<and> \<not> symbol_covered F tests S
        \<and> filter (\<lambda>s. qualified_name s = qualified_name S) syms = [S]"
  then have "covered_symbols F syms (t # tests)
        = covered_symbols F syms tests
          + length (filter (\<lambda>s. qualified_name s = qualified_name S) syms)"
    using covered_symbols_first_claim [of t F S tests syms] by blast
  with a show "covered_symbols F syms (t # tests) = covered_symbols F syms tests + 1" by simp
next
  assume "source_file t = F \<and> functions_tested t = [qualified_name S]
        \<and> symbol_covered F tests S"
  then show "covered_symbols F syms (t # tests) = covered_symbols F syms tests"
    using covered_symbols_further_claim [of t F S tests syms] by blast
qed

theorem covered_is_set_membership_witness:
  "covered_symbols ''math.cpp''
     [\<lparr>kind = Function, qualified_name = ''add'', signature = ''(int, int)'', owning_class = None,
        span_file = ''math.cpp'', start_line = 1, end_line = 3\<rparr>,
      \<lparr>kind = Function, qualified_name = ''subtract'', signature = ''(int, int)'',
        owning_class = None, span_file = ''math.cpp'', start_line = 5, end_line = 7\<rparr>]
     [\<lparr>filename = ''t1.cpp'', test_content = [], source_file = ''math.cpp'',
        functions_tested = [''add''], coverage_estimate = 0\<rparr>]
     = covered_symbols ''math.cpp''
     [\<lparr>kind = Function, qualified_name = ''add'', signature = ''(int, int)'', owning_class = None,
        span_file = ''math.cpp'', start_line = 1, end_line = 3\<rparr>,
      \<lparr>kind = Function, qualified_name = ''subtract'', signature = ''(int, int)'',
        owning_class = None, span_file = ''math.cpp'', start_line = 5, end_line = 7\<rparr>]
     [] + 1
   \<and> covered_symbols ''math.cpp''
     [\<lparr>kind = Function, qualified_name = ''add'', signature = ''(int, int)'', owning_class = None,
        span_file = ''math.cpp'', start_line = 1, end_line = 3\<rparr>,
      \<lparr>kind = Function, qualified_name = ''subtract'', signature = ''(int, int)'',
        owning_class = None, span_file = ''math.cpp'', start_line = 5, end_line = 7\<rparr>]
     [\<lparr>filename = ''t2.cpp'', test_content = [], source_file = ''math.cpp'',
        functions_tested = [''add''], coverage_estimate = 0\<rparr>,
      \<lparr>filename = ''t1.cpp'', test_content = [], source_file = ''math.cpp'',
        functions_tested = [''add''], coverage_estimate = 0\<rparr>]
     = covered_symbols ''math.cpp''
     [\<lparr>kind = Function, qualified_name = ''add'', signature = ''(int, int)'', owning_class = None,
        span_file = ''math.cpp'', start_line = 1, end_line = 3\<rparr>,
      \<lparr>kind = Function, qualified_name = ''subtract'', signature = ''(int, int)'',
        owning_class = None, span_file = ''math.cpp'', start_line = 5, end_line = 7\<rparr>]
     [\<lparr>filename = ''t1.cpp'', test_content = [], source_file = ''math.cpp'',
        functions_tested = [''add''], coverage_estimate = 0\<rparr>]"
proof -
  let ?add = "\<lparr>kind = Function, qualified_name = ''add'', signature = ''(int, int)'',
        owning_class = None, span_file = ''math.cpp'', start_line = 1, end_line = 3\<rparr>"
  let ?sub = "\<lparr>kind = Function, qualified_name = ''subtract'', signature = ''(int, int)'',
        owning_class = None, span_file = ''math.cpp'', start_line = 5, end_line = 7\<rparr>"
  let ?t1 = "\<lparr>filename = ''t1.cpp'', test_content = [], source_file = ''math.cpp'',
        functions_tested = [''add''], coverage_estimate = 0\<rparr>"
  let ?t2 = "\<lparr>filename = ''t2.cpp'', test_content = [], source_file = ''math.cpp'',
        functions_tested = [''add''], coverage_estimate = 0\<rparr>"
  have h1: "source_file ?t1 = ''math.cpp'' \<and> functions_tested ?t1 = [qualified_name ?add]
        \<and> \<not> symbol_covered ''math.cpp'' [] ?add
        \<and> filter (\<lambda>s. qualified_name s = qualified_name ?add) [?add, ?sub] = [?add]"
    by (simp add: symbol_covered_def)
  from h1 covered_is_set_membership [of ?t1 "''math.cpp''" "[?add, ?sub]" "[]" ?add]
  have 1: "covered_symbols ''math.cpp'' [?add, ?sub] [?t1]
      = covered_symbols ''math.cpp'' [?add, ?sub] [] + 1" by blast
  have h2: "source_file ?t2 = ''math.cpp'' \<and> functions_tested ?t2 = [qualified_name ?add]
        \<and> symbol_covered ''math.cpp'' [?t1] ?add"
    by (simp add: symbol_covered_def)
  from h2 covered_is_set_membership [of ?t2 "''math.cpp''" "[?add, ?sub]" "[?t1]" ?add]
  have 2: "covered_symbols ''math.cpp'' [?add, ?sub] [?t2, ?t1]
      = covered_symbols ''math.cpp'' [?add, ?sub] [?t1]" by blast
  from 1 2 show ?thesis by blast
qed

section \<open>Claims about the build validator\<close>

lemma split_colon_append:
  "CHR '':'' \<notin> set f \<Longrightarrow> split_colon (f @ CHR '':'' # rest) = Some (f, rest)"
proof -
  assume "CHR '':'' \<notin> set f"
  then have "takeWhile (\<lambda>c. c \<noteq> CHR '':'') (f @ CHR '':'' # rest) = f"
    and "dropWhile (\<lambda>c. c \<noteq> CHR '':'') (f @ CHR '':'' # rest) = CHR '':'' # rest"
    by (induction f) auto
  then show ?thesis by (simp add: split_colon_def)
qed

lemma digit_not_colon: "list_all is_digit ds \<Longrightarrow> CHR '':'' \<notin> set ds"
  by (auto simp: list_all_iff is_digit_def)

lemma severity_word_no_colon: "parse_severity w = Some sev \<Longrightarrow> CHR '':'' \<notin> set (CHR '' '' # w)"
  by (auto simp: parse_severity_def split: if_splits)

lemma parse_diagnostic_shape:
  assumes "f \<noteq> []" "CHR '':'' \<notin> set f" "ds \<noteq> []" "list_all is_digit ds"
    and "parse_severity w = Some sev"
  shows "parse_diagnostic (f @ '':'' @ ds @ '': '' @ w @ '': '' @ msg)
           = Some \<lparr>severity = sev, message = msg, log_file = Some f, log_line = Some (decimal ds)\<rparr>"
proof -
  let ?r2 = "CHR '' '' # w @ CHR '':'' # CHR '' '' # msg"
  let ?r1 = "ds @ CHR '':'' # ?r2"
  have 1: "split_colon (f @ CHR '':'' # ?r1) = Some (f, ?r1)"
    by (rule split_colon_append [OF assms(2)])
  have 2: "split_colon ?r1 = Some (ds, ?r2)"
    by (rule split_colon_append [OF digit_not_colon [OF assms(4)]])
  have 3: "split_colon ?r2 = Some (CHR '' '' # w, CHR '' '' # msg)"
    using split_colon_append [OF severity_word_no_colon [OF assms(5)], of "CHR '' '' # msg"] by simp
  show ?thesis
    by (simp add: parse_diagnostic_def 1 2 3 parse_line_number_def assms)
qed

lemma scenario_B_line:
  "parse_line ''math_test.cpp:12: error: undeclared identifier''
     = \<lparr>severity = Error, message = ''undeclared identifier'',
        log_file = Some ''math_test.cpp'', log_line = Some 12\<rparr>"
  by (simp add: parse_line_def parse_diagnostic_def split_colon_def parse_line_number_def
      is_digit_def decimal_def parse_severity_def)

text \<open>
  Claim C5: \<open>passed\<close> is true if and only if the log has no \<open>Error\<close> entry and the
  exit status indicates success; the line of Scenario B is parsed into the entry with
  severity \<open>Error\<close>, file \<open>math_test.cpp\<close>, line 12 and message
  \<open>undeclared identifier\<close>, and the build does not pass; every line of the shape
  \<open>file:line: severity: message\<close> is parsed into the entry with those fields; a line
  that does not have the shape becomes an \<open>Info\<close> entry carrying the raw line; and
  the log has one entry per line, in order.
\<close>

theorem validate_passed_and_parse:
  "(fst (validate r) \<longleftrightarrow> (\<forall>e \<in> set (snd (validate r)). severity e \<noteq> Error) \<and> exit_success r)
   \<and> parse_line ''math_test.cpp:12: error: undeclared identifier''
       = \<lparr>severity = Error, message = ''undeclared identifier'',
          log_file = Some ''math_test.cpp'', log_line = Some 12\<rparr>
   \<and> \<not> fst (validate (Exited code [''math_test.cpp:12: error: undeclared identifier'']))
   \<and> (f \<noteq> [] \<and> CHR '':'' \<notin> set f \<and> ds \<noteq> [] \<and> list_all is_digit ds
        \<and> parse_severity w = Some sev \<longrightarrow>
        parse_line (f @ '':'' @ ds @ '': '' @ w @ '': '' @ msg)
          = \<lparr>severity = sev, message = msg, log_file = Some f, log_line = Some (decimal ds)\<rparr>)
   \<and> (parse_diagnostic l = None \<longrightarrow>
        parse_line l = \<lparr>severity = Info, message = l, log_file = None, log_line = None\<rparr>)
   \<and> snd (validate (Exited code ls)) = map parse_line ls"
proof (intro conjI impI)
  show "fst (validate r) \<longleftrightarrow> (\<forall>e \<in> set (snd (validate r)). severity e \<noteq> Error) \<and> exit_success r"
    by (auto simp: validate_def Let_def list_ex_iff)
  show "parse_line ''math_test.cpp:12: error: undeclared identifier''
       = \<lparr>severity = Error, message = ''undeclared identifier'',
          log_file = Some ''math_test.cpp'', log_line = Some 12\<rparr>"
    by (rule scenario_B_line)
  show "\<not> fst (validate (Exited code [''math_test.cpp:12: error: undeclared identifier'']))"
    by (simp add: validate_def build_logs_def scenario_B_line Let_def)
  show "parse_line l = \<lparr>severity = Info, message = l, log_file = None, log_line = None\<rparr>"
    if "parse_diagnostic l = None" using that by (simp add: parse_line_def)
  show "snd (validate (Exited code ls)) = map parse_line ls"
    by (simp add: validate_def build_logs_def Let_def)
  show "parse_line (f @ '':'' @ ds @ '': '' @ w @ '': '' @ msg)
          = \<lparr>severity = sev, message = msg, log_file = Some f, log_line = Some (decimal ds)\<rparr>"
    if "f \<noteq> [] \<and> CHR '':'' \<notin> set f \<and> ds \<noteq> [] \<and> list_all is_digit ds
        \<and> parse_severity w = Some sev"
    using that parse_diagnostic_shape [of f ds w sev msg] by (simp add: parse_line_def)
qed

theorem validate_passed_and_parse_witness:
  "fst (validate (Exited 0 [''a.cpp:3: warning: unused'', ''linking done'']))
   \<and> list_all (\<lambda>e. severity e \<noteq> Error)
         (snd (validate (Exited 0 [''a.cpp:3: warning: unused'', ''linking done''])))
   \<and> exit_success (Exited 0 [''a.cpp:3: warning: unused'', ''linking done''])
   \<and> parse_line (''a.cpp'' @ '':'' @ ''3'' @ '': '' @ ''warning'' @ '': '' @ ''unused'')
       = \<lparr>severity = Warning, message = ''unused'', log_file = Some ''a.cpp'',
          log_line = Some (decimal ''3'')\<rparr>
   \<and> parse_diagnostic ''linking done'' = None
   \<and> parse_line ''linking done''
       = \<lparr>severity = Info, message = ''linking done'', log_file = None, log_line = None\<rparr>"
proof -
  let ?r = "Exited 0 [''a.cpp:3: warning: unused'', ''linking done'']"
  note t = validate_passed_and_parse [of ?r _ "''a.cpp''" "''3''" "''warning''" Warning "''unused''"
      "''linking done''"]
  have p: "fst (validate ?r)"
    by (simp add: validate_def Let_def build_logs_def exit_success_def parse_line_def parse_diagnostic_def
        split_colon_def parse_line_number_def is_digit_def decimal_def parse_severity_def)
  with t have 1: "(\<forall>e \<in> set (snd (validate ?r)). severity e \<noteq> Error) \<and> exit_success ?r" by blast
  have h: "''a.cpp'' \<noteq> [] \<and> CHR '':'' \<notin> set ''a.cpp'' \<and> ''3'' \<noteq> [] \<and> list_all is_digit ''3''
        \<and> parse_severity ''warning'' = Some Warning"
    by (simp add: is_digit_def parse_severity_def)
  with t have 2: "parse_line (''a.cpp'' @ '':'' @ ''3'' @ '': '' @ ''warning'' @ '': '' @ ''unused'')
       = \<lparr>severity = Warning, message = ''unused'', log_file = Some ''a.cpp'',
          log_line = Some (decimal ''3'')\<rparr>" by blast
  have n: "parse_diagnostic ''linking done'' = None"
    by (simp add: parse_diagnostic_def split_colon_def)
  with t have 3: "parse_line ''linking done''
       = \<lparr>severity = Info, message = ''linking done'', log_file = None, log_line = None\<rparr>" by blast
  from 1 have 4: "list_all (\<lambda>e. severity e \<noteq> Error) (snd (validate ?r))"
    unfolding list_all_iff by blast
  from p 1 2 n 3 4 show ?thesis by blast
qed

section \<open>Claims about the orchestrator\<close>

lemma step_decreases:
  "\<not> terminal (status s) \<Longrightarrow> steps_left (step cfg s out) < steps_left s"
  by (cases "status s")
     (auto simp: step_def steps_left_def rank_def terminal_def building_outcome_def model_failure_def
        Let_def split: option.splits Stage.splits)

lemma step_terminal: "terminal (status s) \<Longrightarrow> step cfg s out = s"
  by (auto simp: step_def terminal_def)

lemma exec_bound:
  "terminal (status (exec cfg env n)) \<or> steps_left (exec cfg env n) + n \<le> steps_left (init cfg)"
proof (induction n)
  case 0
  then show ?case by simp
next
  case (Suc n)
  show ?case
  proof (cases "terminal (status (exec cfg env n))")
    case True
    then show ?thesis by (simp add: step_terminal)
  next
    case False
    with Suc have "steps_left (exec cfg env n) + n \<le> steps_left (init cfg)" by simp
    moreover from False have "steps_left (exec cfg env (Suc n)) < steps_left (exec cfg env n)"
      by (simp add: step_decreases)
    ultimately show ?thesis by simp
  qed
qed

lemma rank_zero: "rank st = 0 \<longleftrightarrow> terminal st"
  by (cases st) (simp_all add: rank_def terminal_def)

lemma exec_terminates:
  "terminal (status (exec cfg env (3 * (build_fix_budget cfg + refinement_budget cfg) + 4)))"
proof -
  let ?n = "3 * (build_fix_budget cfg + refinement_budget cfg) + 4"
  have i: "steps_left (init cfg) = ?n" by (simp add: steps_left_def init_def rank_def)
  from exec_bound [of cfg env ?n] show ?thesis
  proof
    assume "steps_left (exec cfg env ?n) + ?n \<le> steps_left (init cfg)"
    with i have "steps_left (exec cfg env ?n) = 0" by simp
    then have "rank (status (exec cfg env ?n)) = 0" by (simp add: steps_left_def)
    then show ?thesis by (simp add: rank_zero)
  qed
qed

lemma exec_stays:
  "terminal (status (exec cfg env n)) \<Longrightarrow> exec cfg env (n + k) = exec cfg env n"
  by (induction k) (simp_all add: step_terminal)

lemma step_budgets:
  "build_fix_left (step cfg s out) \<le> build_fix_left s \<and> refine_left (step cfg s out) \<le> refine_left s
   \<and> (build_fix_left (step cfg s out) = build_fix_left s \<or> refine_left (step cfg s out) = refine_left s)
   \<and> build_fix_left s + refine_left s \<le> Suc (build_fix_left (step cfg s out) + refine_left (step cfg s out))"
  by (cases "status s")
     (auto simp: step_def building_outcome_def model_failure_def
        Let_def split: option.splits Stage.splits)

lemma succeeded_inv:
  "reachable cfg s \<Longrightarrow> status s = Succeeded \<Longrightarrow>
     \<exists>c. last_build s = Some (True, c) \<and> coverage_threshold cfg \<le> c"
proof (induction rule: reachable.induct)
  case reachable_init
  then show ?case by (simp add: init_def)
next
  case (reachable_step s out)
  then show ?case
    by (cases "status s")
       (auto simp: step_def building_outcome_def model_failure_def
          Let_def split: option.splits Stage.splits if_splits)
qed

lemma step_to_succeeded:
  "status (step cfg s out) = Succeeded \<Longrightarrow> status s \<noteq> Succeeded \<Longrightarrow>
     status s = Building \<and> build_passed out \<and> coverage_threshold cfg \<le> coverage out"
  by (cases "status s")
     (auto simp: step_def building_outcome_def model_failure_def
          Let_def split: option.splits Stage.splits if_splits)

lemma exec_reachable: "reachable cfg (exec cfg env n)"
  by (induction n) (auto intro: reachable.intros)

text \<open>
  Claim C3: in every reachable state with status \<open>Succeeded\<close> the last build passed
  with coverage at least the threshold, and a transition into \<open>Succeeded\<close> is taken
  only from \<open>Building\<close> on such a verdict. In Scenario C (threshold 0.8, refinement
  budget 2, first build clean with coverage 0.5) the run goes from \<open>Building\<close> to
  \<open>Refining\<close>, with one refinement attempt consumed.
\<close>

theorem succeeded_only_when_passed_and_covered:
  "(reachable cfg s \<and> status s = Succeeded \<longrightarrow>
       (\<exists>c. last_build s = Some (True, c) \<and> coverage_threshold cfg \<le> c))
   \<and> (status (step cfg s out) = Succeeded \<and> status s \<noteq> Succeeded \<longrightarrow>
       status s = Building \<and> build_passed out \<and> coverage_threshold cfg \<le> coverage out)
   \<and> (coverage_threshold cfg = 4 / 5 \<and> refinement_budget cfg = 2
        \<and> analyzer_ok (env 1) \<and> model_reply (env 2) = None
        \<and> build_passed (env 3) \<and> coverage (env 3) = 1 / 2 \<longrightarrow>
       status (exec cfg env 3) = Building
       \<and> status (exec cfg env 4) = Refining \<and> refine_left (exec cfg env 4) = 1
       \<and> building_attempts (exec cfg env 4) = 1)"
proof (intro conjI impI)
  assume "reachable cfg s \<and> status s = Succeeded"
  then show "\<exists>c. last_build s = Some (True, c) \<and> coverage_threshold cfg \<le> c"
    using succeeded_inv by blast
next
  assume "status (step cfg s out) = Succeeded \<and> status s \<noteq> Succeeded"
  then have "status s = Building \<and> build_passed out \<and> coverage_threshold cfg \<le> coverage out"
    using step_to_succeeded by blast
  then show "status s = Building" "build_passed out" "coverage_threshold cfg \<le> coverage out"
    by simp_all
next
  assume a: "coverage_threshold cfg = 4 / 5 \<and> refinement_budget cfg = 2
        \<and> analyzer_ok (env 1) \<and> model_reply (env 2) = None
        \<and> build_passed (env 3) \<and> coverage (env 3) = 1 / 2"
  have 1: "exec cfg env 1 = (init cfg)\<lparr>status := Analyzing\<rparr>"
    by (simp add: step_def init_def)
  have 2: "exec cfg env 2 = (init cfg)\<lparr>status := Generating\<rparr>"
    using a 1 by (simp add: eval_nat_numeral step_def init_def)
  have 3: "exec cfg env 3 = (init cfg)\<lparr>status := Building\<rparr>"
    using a 2 by (simp add: eval_nat_numeral step_def init_def)
  have 4: "exec cfg env 4 = (init cfg)\<lparr>status := Refining, refine_left := 1,
      building_attempts := 1, last_build := Some (True, 1 / 2)\<rparr>"
    using a 3 by (simp add: eval_nat_numeral step_def init_def building_outcome_def)
  from 3 show "status (exec cfg env 3) = Building" by simp
  from 4 show "status (exec cfg env 4) = Refining" "refine_left (exec cfg env 4) = 1"
    "building_attempts (exec cfg env 4) = 1" by simp_all
qed

theorem succeeded_only_when_passed_and_covered_witness:
  "reachable \<lparr>coverage_threshold = 4 / 5, build_fix_budget = 1, refinement_budget = 2\<rparr>
     (exec \<lparr>coverage_threshold = 4 / 5, build_fix_budget = 1, refinement_budget = 2\<rparr>
        (\<lambda>i. \<lparr>analyzer_ok = True, model_reply = None, build_passed = True, coverage = 9 / 10\<rparr>) 4)
   \<and> status (exec \<lparr>coverage_threshold = 4 / 5, build_fix_budget = 1, refinement_budget = 2\<rparr>
        (\<lambda>i. \<lparr>analyzer_ok = True, model_reply = None, build_passed = True, coverage = 9 / 10\<rparr>) 4)
       = Succeeded
   \<and> (\<exists>c. last_build (exec \<lparr>coverage_threshold = 4 / 5, build_fix_budget = 1, refinement_budget = 2\<rparr>
        (\<lambda>i. \<lparr>analyzer_ok = True, model_reply = None, build_passed = True, coverage = 9 / 10\<rparr>) 4)
          = Some (True, c) \<and> 4 / 5 \<le> c)
   \<and> status (exec \<lparr>coverage_threshold = 4 / 5, build_fix_budget = 1, refinement_budget = 2\<rparr>
        (\<lambda>i. \<lparr>analyzer_ok = True, model_reply = None, build_passed = True, coverage = 9 / 10\<rparr>) 3)
       = Building
   \<and> status (exec \<lparr>coverage_threshold = 4 / 5, build_fix_budget = 1, refinement_budget = 2\<rparr>
        (\<lambda>i. \<lparr>analyzer_ok = True, model_reply = None, build_passed = True, coverage = 1 / 2\<rparr>) 4)
       = Refining
   \<and> refine_left (exec \<lparr>coverage_threshold = 4 / 5, build_fix_budget = 1, refinement_budget = 2\<rparr>
        (\<lambda>i. \<lparr>analyzer_ok = True, model_reply = None, build_passed = True, coverage = 1 / 2\<rparr>) 4)
       = 1"
proof -
  let ?cfg = "\<lparr>coverage_threshold = 4 / 5, build_fix_budget = 1, refinement_budget = 2\<rparr>"
  let ?hi = "\<lambda>i::nat. \<lparr>analyzer_ok = True, model_reply = None, build_passed = True, coverage = 9 / 10\<rparr>"
  let ?lo = "\<lambda>i::nat. \<lparr>analyzer_ok = True, model_reply = None, build_passed = True, coverage = 1 / 2\<rparr>"
  have r: "reachable ?cfg (exec ?cfg ?hi 4)" by (rule exec_reachable)
  have s3: "status (exec ?cfg ?hi 3) \<noteq> Succeeded"
    by (simp add: eval_nat_numeral step_def init_def)
  have s4: "status (exec ?cfg ?hi 4) = Succeeded"
    by (simp add: eval_nat_numeral step_def init_def building_outcome_def)
  from r s4 succeeded_only_when_passed_and_covered [of ?cfg "exec ?cfg ?hi 4"]
  have 1: "\<exists>c. last_build (exec ?cfg ?hi 4) = Some (True, c) \<and> 4 / 5 \<le> c" by simp
  have "exec ?cfg ?hi 4 = step ?cfg (exec ?cfg ?hi 3) (?hi 3)" by (simp add: eval_nat_numeral)
  with s3 s4 succeeded_only_when_passed_and_covered [of ?cfg "exec ?cfg ?hi 3" "?hi 3"]
  have 2: "status (exec ?cfg ?hi 3) = Building" by simp
  have h: "coverage_threshold ?cfg = 4 / 5 \<and> refinement_budget ?cfg = 2
        \<and> analyzer_ok (?lo 1) \<and> model_reply (?lo 2) = None
        \<and> build_passed (?lo 3) \<and> coverage (?lo 3) = 1 / 2" by simp
  from h succeeded_only_when_passed_and_covered [of ?cfg _ _ ?lo]
  have 3: "status (exec ?cfg ?lo 4) = Refining \<and> refine_left (exec ?cfg ?lo 4) = 1" by blast
  from r s4 1 2 3 show ?thesis by blast
qed

text \<open>
  Claim C4: every run reaches a terminal state, within three transitions per attempt of
  the two budgets plus four, and stays there. The two budgets are separate counters: no
  transition raises either and none lowers both. From \<open>Building\<close>, a failed build
  with no build-fix attempt left, or an under-covered one with no refinement attempt
  left, is \<open>Failed\<close>. A run with no build-fix budget whose first build fails is
  \<open>Failed\<close> after exactly one Building attempt and never makes another.
\<close>

theorem run_terminates:
  "terminal (status (exec cfg env (3 * (build_fix_budget cfg + refinement_budget cfg) + 4)))
   \<and> (terminal (status (exec cfg env n)) \<longrightarrow> exec cfg env (n + k) = exec cfg env n)
   \<and> build_fix_left (step cfg s out) \<le> build_fix_left s
   \<and> refine_left (step cfg s out) \<le> refine_left s
   \<and> (build_fix_left (step cfg s out) = build_fix_left s
        \<or> refine_left (step cfg s out) = refine_left s)
   \<and> (status s = Building \<and> \<not> build_passed out \<and> build_fix_left s = 0 \<longrightarrow>
        status (step cfg s out) = Failed)
   \<and> (status s = Building \<and> build_passed out \<and> coverage out < coverage_threshold cfg
        \<and> refine_left s = 0 \<longrightarrow> status (step cfg s out) = Failed)
   \<and> (build_fix_budget cfg = 0 \<and> analyzer_ok (env 1) \<and> model_reply (env 2) = None
        \<and> \<not> build_passed (env 3) \<longrightarrow>
        status (exec cfg env 3) = Building \<and> building_attempts (exec cfg env 3) = 0
        \<and> status (exec cfg env (4 + k)) = Failed
        \<and> building_attempts (exec cfg env (4 + k)) = 1)"
proof (intro conjI impI)
  show "terminal (status (exec cfg env (3 * (build_fix_budget cfg + refinement_budget cfg) + 4)))"
    by (rule exec_terminates)
  show "exec cfg env (n + k) = exec cfg env n" if "terminal (status (exec cfg env n))"
    using that by (rule exec_stays)
  show "build_fix_left (step cfg s out) \<le> build_fix_left s"
    "refine_left (step cfg s out) \<le> refine_left s"
    "build_fix_left (step cfg s out) = build_fix_left s
        \<or> refine_left (step cfg s out) = refine_left s"
    using step_budgets [of cfg s out] by blast+
  show "status (step cfg s out) = Failed"
    if "status s = Building \<and> \<not> build_passed out \<and> build_fix_left s = 0"
    using that by (simp add: step_def building_outcome_def)
  show "status (step cfg s out) = Failed"
    if "status s = Building \<and> build_passed out \<and> coverage out < coverage_threshold cfg
        \<and> refine_left s = 0"
    using that by (simp add: step_def building_outcome_def)
next
  assume a: "build_fix_budget cfg = 0 \<and> analyzer_ok (env 1) \<and> model_reply (env 2) = None
        \<and> \<not> build_passed (env 3)"
  have 1: "exec cfg env 1 = (init cfg)\<lparr>status := Analyzing\<rparr>"
    by (simp add: step_def init_def)
  have 2: "exec cfg env 2 = (init cfg)\<lparr>status := Generating\<rparr>"
    using a 1 by (simp add: eval_nat_numeral step_def init_def)
  have 3: "exec cfg env 3 = (init cfg)\<lparr>status := Building\<rparr>"
    using a 2 by (simp add: eval_nat_numeral step_def init_def)
  have 4: "exec cfg env 4 = (init cfg)\<lparr>status := Failed,
      building_attempts := 1, last_build := Some (False, coverage (env 3))\<rparr>"
    using a 3 by (simp add: eval_nat_numeral step_def init_def building_outcome_def)
  then have "terminal (status (exec cfg env 4))" by (simp add: terminal_def)
  then have 5: "exec cfg env (4 + k) = exec cfg env 4" by (rule exec_stays)
  from 3 show "status (exec cfg env 3) = Building" "building_attempts (exec cfg env 3) = 0"
    by (simp_all add: init_def)
  from 4 5 show "status (exec cfg env (4 + k)) = Failed"
    "building_attempts (exec cfg env (4 + k)) = 1" by simp_all
qed

theorem run_terminates_witness:
  "terminal (status (exec \<lparr>coverage_threshold = 4 / 5, build_fix_budget = 0, refinement_budget = 0\<rparr>
     (\<lambda>i. \<lparr>analyzer_ok = True, model_reply = None, build_passed = False, coverage = 0\<rparr>) 4))
   \<and> exec \<lparr>coverage_threshold = 4 / 5, build_fix_budget = 0, refinement_budget = 0\<rparr>
     (\<lambda>i. \<lparr>analyzer_ok = True, model_reply = None, build_passed = False, coverage = 0\<rparr>) (4 + 10)
     = exec \<lparr>coverage_threshold = 4 / 5, build_fix_budget = 0, refinement_budget = 0\<rparr>
     (\<lambda>i. \<lparr>analyzer_ok = True, model_reply = None, build_passed = False, coverage = 0\<rparr>) 4
   \<and> status (exec \<lparr>coverage_threshold = 4 / 5, build_fix_budget = 0, refinement_budget = 0\<rparr>
     (\<lambda>i. \<lparr>analyzer_ok = True, model_reply = None, build_passed = False, coverage = 0\<rparr>) (4 + 10))
     = Failed
   \<and> building_attempts (exec \<lparr>coverage_threshold = 4 / 5, build_fix_budget = 0, refinement_budget = 0\<rparr>
     (\<lambda>i. \<lparr>analyzer_ok = True, model_reply = None, build_passed = False, coverage = 0\<rparr>) (4 + 10))
     = 1
   \<and> status (step \<lparr>coverage_threshold = 4 / 5, build_fix_budget = 0, refinement_budget = 0\<rparr>
       \<lparr>status = Building, stage = InitialGeneration, build_fix_left = 0, refine_left = 0,
          building_attempts = 0, last_build = None\<rparr>
       \<lparr>analyzer_ok = True, model_reply = None, build_passed = False, coverage = 0\<rparr>) = Failed
   \<and> status (step \<lparr>coverage_threshold = 4 / 5, build_fix_budget = 0, refinement_budget = 0\<rparr>
       \<lparr>status = Building, stage = InitialGeneration, build_fix_left = 0, refine_left = 0,
          building_attempts = 0, last_build = None\<rparr>
       \<lparr>analyzer_ok = True, model_reply = None, build_passed = True, coverage = 1 / 2\<rparr>) = Failed"
proof -
  let ?cfg = "\<lparr>coverage_threshold = 4 / 5, build_fix_budget = 0, refinement_budget = 0\<rparr>"
  let ?env = "\<lambda>i::nat. \<lparr>analyzer_ok = True, model_reply = None, build_passed = False, coverage = 0\<rparr>"
  let ?b = "\<lparr>status = Building, stage = InitialGeneration, build_fix_left = 0, refine_left = 0,
          building_attempts = 0, last_build = None\<rparr>"
  let ?low = "\<lparr>analyzer_ok = True, model_reply = None, build_passed = True, coverage = 1 / 2\<rparr>"
  note t = run_terminates [of ?cfg ?env 4 10 ?b "?env 3"]
  from t have 1: "terminal (status (exec ?cfg ?env 4))" by simp
  with t have 2: "exec ?cfg ?env (4 + 10) = exec ?cfg ?env 4" by blast
  have h: "build_fix_budget ?cfg = 0 \<and> analyzer_ok (?env 1) \<and> model_reply (?env 2) = None
        \<and> \<not> build_passed (?env 3)" by simp
  with t have 3: "status (exec ?cfg ?env (4 + 10)) = Failed
      \<and> building_attempts (exec ?cfg ?env (4 + 10)) = 1" by blast
  have f: "status ?b = Building \<and> \<not> build_passed (?env 3) \<and> build_fix_left ?b = 0" by simp
  with t have 4: "status (step ?cfg ?b (?env 3)) = Failed" by blast
  have u: "status ?b = Building \<and> build_passed ?low \<and> coverage ?low < coverage_threshold ?cfg
      \<and> refine_left ?b = 0" by simp
  with run_terminates [of ?cfg ?env 4 10 ?b ?low]
  have 5: "status (step ?cfg ?b ?low) = Failed" by blast
  from 1 2 3 4 5 show ?thesis by simp
qed

end
